theory Spec2Isabelle
  imports Complex_Main
begin

section \<open>Python values and the library functions the code calls\<close>

text \<open>
  A Python \<open>str\<close> is the list of its Unicode code points, so that \<open>len\<close>, slicing
  and the pattern characters (the pound sign is code point 163) count what Python
  counts. Floats are idealised: a finite float is a real number, and the three special
  values are kept apart because comparisons treat them differently.
\<close>

type_synonym pystr = "nat list"

definition py :: "string \<Rightarrow> pystr" where
  "py s = map of_char s"

datatype pyfloat = Fin real | PosInf | NegInf | NaN

datatype json =
    JNull
  | JBool bool
  | JInt int
  | JFloat pyfloat
  | JStr pystr
  | JArr "json list"
  | JObj "(pystr \<times> json) list"

datatype py_error = TypeError | ValueError | OverflowError | RecursionError

text \<open>
  The functions of the Python runtime, of \<open>re\<close>, of \<open>json\<close> and of the network that
  the code calls are parameters of the model, collected in one record; no property of
  them is assumed anywhere.
  \<^item> \<open>str_isspace\<close>: \<open>str.isspace\<close> on one code point (what \<open>str.strip\<close> removes and
    what the class \<open>\s\<close> matches);
  \<^item> \<open>re_word\<close>, \<open>re_digit\<close>: the classes \<open>\w\<close> and \<open>\d\<close>;
  \<^item> \<open>re_ieq p c\<close>: under \<open>re.IGNORECASE\<close> the pattern character \<open>p\<close> matches the
    text character \<open>c\<close> although they differ;
  \<^item> \<open>str_lower\<close>: \<open>str.lower\<close>;
  \<^item> \<open>float_str\<close>: \<open>float(s)\<close> on a string, \<open>None\<close> for \<open>ValueError\<close>;
  \<^item> \<open>str_json\<close>: \<open>str(v)\<close> on a parsed JSON value that is not a string;
  \<^item> \<open>json_loads\<close>: \<open>json.loads\<close> on a text that starts with an opening brace, so
    a result is an object, given as its key/value pairs; \<open>Inr None\<close> stands for
    \<open>JSONDecodeError\<close>, and \<open>Inl e\<close> for any other exception that
    \<open>json.loads\<close> raises (a plain \<open>ValueError\<close> for an integer literal with
    more digits than the interpreter converts, \<open>RecursionError\<close> for a text nested
    too deeply);
  \<^item> \<open>call_llm\<close>: the completion provider behind \<open>call_llm\<close>, which returns the
    reply or \<open>None\<close> (provider error, timeout, retries exhausted).
\<close>

record pylib =
  str_isspace :: "nat \<Rightarrow> bool"
  re_word :: "nat \<Rightarrow> bool"
  re_digit :: "nat \<Rightarrow> bool"
  re_ieq :: "nat \<Rightarrow> nat \<Rightarrow> bool"
  str_lower :: "pystr \<Rightarrow> pystr"
  float_str :: "pystr \<Rightarrow> pyfloat option"
  str_json :: "json \<Rightarrow> pystr"
  json_loads :: "pystr \<Rightarrow> py_error + (pystr \<times> json) list option"
  call_llm :: "pystr \<Rightarrow> pystr option"

definition strip :: "pylib \<Rightarrow> pystr \<Rightarrow> pystr" where
  "strip lib s =
     rev (dropWhile (str_isspace lib) (rev (dropWhile (str_isspace lib) s)))"

subsection \<open>Regular expressions\<close>

text \<open>
  The patterns of the source, as syntax trees. \<open>rx_ends r lib s i\<close> lists the positions
  where a match of \<open>r\<close> that starts at position \<open>i\<close> of \<open>s\<close> can end, in the order in
  which a backtracking matcher tries them (an alternative's left branch first, an
  optional or repeated part as long as possible first), so that the head of the list is
  the end of the match that \<open>re\<close> reports.
\<close>

datatype regex =
    Eps
  | Chr nat
  | ChrI nat
  | Space
  | Digit
  | AnyChar
  | WordB
  | Seq regex regex
  | Alt regex regex
  | Opt regex
  | Star regex

primrec star_iter :: "(nat \<Rightarrow> nat list) \<Rightarrow> nat \<Rightarrow> nat \<Rightarrow> nat list" where
  "star_iter f 0 i = [i]"
| "star_iter f (Suc n) i =
     concat (map (star_iter f n) (filter (\<lambda>e. i < e) (f i))) @ [i]"

primrec rx_ends :: "regex \<Rightarrow> pylib \<Rightarrow> pystr \<Rightarrow> nat \<Rightarrow> nat list" where
  "rx_ends Eps lib s i = [i]"
| "rx_ends (Chr c) lib s i = (if i < length s \<and> s ! i = c then [Suc i] else [])"
| "rx_ends (ChrI c) lib s i =
     (if i < length s \<and> (s ! i = c \<or> re_ieq lib c (s ! i)) then [Suc i] else [])"
| "rx_ends Space lib s i =
     (if i < length s \<and> str_isspace lib (s ! i) then [Suc i] else [])"
| "rx_ends Digit lib s i =
     (if i < length s \<and> re_digit lib (s ! i) then [Suc i] else [])"
| "rx_ends AnyChar lib s i = (if i < length s then [Suc i] else [])"
| "rx_ends WordB lib s i =
     (if (0 < i \<and> re_word lib (s ! (i - 1))) \<noteq> (i < length s \<and> re_word lib (s ! i))
      then [i] else [])"
| "rx_ends (Seq a b) lib s i = concat (map (rx_ends b lib s) (rx_ends a lib s i))"
| "rx_ends (Alt a b) lib s i = rx_ends a lib s i @ rx_ends b lib s i"
| "rx_ends (Opt a) lib s i = rx_ends a lib s i @ [i]"
| "rx_ends (Star a) lib s i = star_iter (rx_ends a lib s) (length s) i"

text \<open>\<open>re.search\<close>: the leftmost start that has a match, with that match's end.\<close>

definition re_search :: "regex \<Rightarrow> pylib \<Rightarrow> pystr \<Rightarrow> (nat \<times> nat) option" where
  "re_search r lib s =
     (case filter (\<lambda>i. rx_ends r lib s i \<noteq> []) [0..<Suc (length s)] of
        [] \<Rightarrow> None
      | i # _ \<Rightarrow> Some (i, hd (rx_ends r lib s i)))"

primrec seqs :: "regex list \<Rightarrow> regex" where
  "seqs [] = Eps"
| "seqs (r # rs) = Seq r (seqs rs)"

primrec alts :: "regex \<Rightarrow> regex list \<Rightarrow> regex" where
  "alts r [] = r"
| "alts r (q # qs) = Alt r (alts q qs)"

definition lit :: "string \<Rightarrow> regex" where
  "lit s = seqs (map (\<lambda>c. ChrI (of_char c)) s)"

section \<open>RuleScorer: \<open>signal_scoring.py\<close>\<close>

record SignalResult =
  is_question :: bool
  asks_recommendation :: bool
  mentions_cost :: bool
  mentions_platform :: bool
  signal_score :: real
  detected_keywords :: "pystr list"

text \<open>The inline pattern of \<open>score_text\<close>: \<open>\b(how|what|why|which|can i|should i)\b\<close>.\<close>

definition QUESTION_PAT :: regex where
  "QUESTION_PAT =
     seqs [WordB,
           alts (lit ''how'') [lit ''what'', lit ''why'', lit ''which'', lit ''can i'',
                               lit ''should i''],
           WordB]"

definition RECOMMEND_PAT :: regex where
  "RECOMMEND_PAT =
     seqs [WordB,
           alts (lit ''anyone recommend'')
             [seqs [lit ''recommendation'', Opt (lit ''s'')],
              seqs [lit ''what '', alts (lit ''should'') [lit ''shall''], lit '' i '',
                    alts (lit ''do'') [lit ''use'']],
              seqs [lit ''best '',
                    alts (lit ''platform'') [lit ''broker'', lit ''bank'', lit ''card'']],
              seqs [lit ''which '',
                    alts (lit ''bank'') [lit ''card'', lit ''platform'', lit ''broker'']],
              lit ''worth it''],
           WordB]"

definition COST_PAT :: regex where
  "COST_PAT =
     alts (seqs [Chr 163, Opt Space, Digit, Star Digit])
       [seqs [WordB, Digit, Star Digit, Opt (seqs [Chr 46, Digit, Star Digit]), Chr 37,
              WordB],
        seqs [WordB, lit ''apr'', WordB],
        seqs [WordB, lit ''interest'', WordB],
        seqs [WordB, lit ''fee'', Opt (lit ''s''), WordB],
        seqs [WordB, lit ''cost'', Opt (lit ''s''), WordB]]"

definition PLATFORM_PAT :: regex where
  "PLATFORM_PAT =
     seqs [WordB,
           alts (seqs [lit ''trading'', Star Space, lit ''212''])
             [lit ''vanguard'', lit ''hl'', lit ''hargreaves'', lit ''freetrade'',
              seqs [lit ''aj'', Star Space, lit ''bell''],
              seqs [lit ''ii'', WordB],
              seqs [lit ''interactive'', Star Space, lit ''investor''],
              lit ''monzo'', lit ''starling'', lit ''revolut'', lit ''barclays'',
              lit ''lloyds'', lit ''natwest'', lit ''hsbc'', lit ''amex'',
              seqs [lit ''american'', Star Space, lit ''express'']],
           WordB]"

definition no_signal :: SignalResult where
  "no_signal =
     \<lparr>is_question = False, asks_recommendation = False, mentions_cost = False,
      mentions_platform = False, signal_score = 0, detected_keywords = []\<rparr>"

definition score_text :: "pylib \<Rightarrow> pystr option \<Rightarrow> SignalResult" where
  "score_text lib text =
     (case text of
        None \<Rightarrow> no_signal
      | Some t \<Rightarrow>
          if t = [] then no_signal
          else
            let norm = strip lib t;
                q = (63 \<in> set norm \<or> re_search QUESTION_PAT lib norm \<noteq> None);
                r = (re_search RECOMMEND_PAT lib norm \<noteq> None);
                c = (re_search COST_PAT lib norm \<noteq> None);
                p = (re_search PLATFORM_PAT lib norm \<noteq> None);
                detected =
                  (if q then [py ''question''] else []) @
                  (if r then [py ''recommendation''] else []) @
                  (if c then [py ''cost''] else []) @
                  (if p then [py ''platform''] else []);
                score =
                  0 + (if q then 35 / 100 else 0) + (if r then 35 / 100 else 0) +
                  (if c then 2 / 10 else 0) + (if p then 2 / 10 else 0)
            in \<lparr>is_question = q, asks_recommendation = r, mentions_cost = c,
                mentions_platform = p, signal_score = min 1 score,
                detected_keywords = detected\<rparr>)"

text \<open>
  An environment for evaluating the definitions on ASCII text: blanks are the six ASCII
  whitespace characters, word characters are letters, digits and the underscore, and
  case folding maps \<open>A\<close>..\<open>Z\<close> to \<open>a\<close>..\<open>z\<close>. The provider never answers.
\<close>

definition ascii_lower :: "nat \<Rightarrow> nat" where
  "ascii_lower c = (if 65 \<le> c \<and> c \<le> 90 then c + 32 else c)"

definition ascii_lib :: pylib where
  "ascii_lib =
     \<lparr>str_isspace = (\<lambda>c. (9 \<le> c \<and> c \<le> 13) \<or> c = 32),
      re_word = (\<lambda>c. (48 \<le> c \<and> c \<le> 57) \<or> (65 \<le> c \<and> c \<le> 90) \<or> c = 95 \<or>
                     (97 \<le> c \<and> c \<le> 122)),
      re_digit = (\<lambda>c. 48 \<le> c \<and> c \<le> 57),
      re_ieq = (\<lambda>p c. ascii_lower p = ascii_lower c),
      str_lower = map ascii_lower,
      float_str = (\<lambda>s. None),
      str_json = (\<lambda>v. []),
      json_loads = (\<lambda>s. Inr None),
      call_llm = (\<lambda>s. None)\<rparr>"

text \<open>The first example of the spec's section 8: "What's the best broker? " and a fee of 10 pounds.\<close>

definition broker_question :: pystr where
  "broker_question = py ''What'' @ [39] @ py ''s the best broker? '' @ [163] @ py ''10 fee''"

section \<open>LLMSignalClassifier: \<open>llm_signal_scoring.py\<close>\<close>

subsection \<open>\<open>_extract_json\<close>\<close>

text \<open>
  \<open>re.sub(pattern, "", s)\<close> for a pattern without empty matches: scanning from the
  left, a match is dropped and the scan goes on behind it; a character where no match
  starts is kept.
\<close>

function re_sub_del :: "regex \<Rightarrow> pylib \<Rightarrow> pystr \<Rightarrow> nat \<Rightarrow> pystr" where
  "re_sub_del r lib s i =
     (if length s \<le> i then []
      else (case rx_ends r lib s i of
              [] \<Rightarrow> s ! i # re_sub_del r lib s (Suc i)
            | e # _ \<Rightarrow>
                if i < e then re_sub_del r lib s e
                else s ! i # re_sub_del r lib s (Suc i)))"
  by pat_completeness auto
termination
  by (relation "measure (\<lambda>(r, lib, s, i). length s - i)") auto

text \<open>\<open>s.replace(old, "")\<close>: the occurrences of \<open>old\<close>, from the left, not overlapping.\<close>

function str_remove :: "pystr \<Rightarrow> pystr \<Rightarrow> pystr" where
  "str_remove old s =
     (if s = [] \<or> old = [] then s
      else if take (length old) s = old then str_remove old (drop (length old) s)
      else hd s # str_remove old (tl s))"
  by pat_completeness auto
termination
  by (relation "measure (\<lambda>(old, s). length s)") auto

declare re_sub_del.simps [simp del] str_remove.simps [simp del]

text \<open>The code fence, three backquotes and an optional \<open>json\<close>, and \<open>\{.*\}\<close> with DOTALL.\<close>

definition FENCE_PAT :: regex where
  "FENCE_PAT = seqs [Chr 96, Chr 96, Chr 96, Opt (lit ''json'')]"

definition BRACE_PAT :: regex where
  "BRACE_PAT = seqs [Chr 123, Star AnyChar, Chr 125]"

text \<open>
  \<open>_extract_json\<close>. Its handler is \<open>except json.JSONDecodeError\<close>: only that
  exception becomes the result \<open>None\<close>, and any other exception of \<open>json.loads\<close>
  leaves the function.
\<close>

definition extract_json ::
  "pylib \<Rightarrow> pystr \<Rightarrow> py_error + (pystr \<times> json) list option" where
  "extract_json lib response =
     (if response = [] then Inr None
      else
        let cleaned = strip lib response;
            cleaned = re_sub_del FENCE_PAT lib cleaned 0;
            cleaned = str_remove [96, 96, 96] cleaned
        in (case re_search BRACE_PAT lib cleaned of
              None \<Rightarrow> Inr None
            | Some (i, e) \<Rightarrow> json_loads lib (take (e - i) (drop i cleaned))))"

subsection \<open>\<open>_coerce_bool\<close>, \<open>_keywords_from_flags\<close>, \<open>_normalize_payload\<close>\<close>

fun coerce_bool :: "pylib \<Rightarrow> json \<Rightarrow> bool" where
  "coerce_bool lib (JBool b) = b"
| "coerce_bool lib (JInt n) = (n \<noteq> 0)"
| "coerce_bool lib (JFloat f) = (f \<noteq> Fin 0)"
| "coerce_bool lib (JStr s) =
     (str_lower lib (strip lib s) \<in> {py ''true'', py ''yes'', py ''y'', py ''1''})"
| "coerce_bool lib JNull = False"
| "coerce_bool lib (JArr xs) = False"
| "coerce_bool lib (JObj kvs) = False"

definition keywords_from_flags :: "bool \<Rightarrow> bool \<Rightarrow> bool \<Rightarrow> bool \<Rightarrow> pystr list" where
  "keywords_from_flags q r c p =
     (if q then [py ''question''] else []) @
     (if r then [py ''recommendation''] else []) @
     (if c then [py ''cost''] else []) @
     (if p then [py ''platform''] else [])"

text \<open>
  Modelled from the spec: \<open>score_from_flags\<close> is imported from \<open>signal_scoring\<close>, and
  the \<open>signal_scoring.py\<close> of the sources does not define it. The spec (4.2) says it
  recomputes the score from the flags "using the same additive weights as RuleScorer":
  0.35, 0.35, 0.2 and 0.2, capped at 1.0.
\<close>

definition score_from_flags :: "bool \<Rightarrow> bool \<Rightarrow> bool \<Rightarrow> bool \<Rightarrow> real" where
  "score_from_flags q r c p =
     min 1 ((if q then 35 / 100 else 0) + (if r then 35 / 100 else 0) +
            (if c then 2 / 10 else 0) + (if p then 2 / 10 else 0))"

text \<open>\<open>d.get(k)\<close>: a missing key and a JSON \<open>null\<close> both give Python's \<open>None\<close>.\<close>

definition dict_get :: "(pystr \<times> json) list \<Rightarrow> pystr \<Rightarrow> json" where
  "dict_get d k = (case map_of d k of None \<Rightarrow> JNull | Some v \<Rightarrow> v)"

text \<open>Truth value of a parsed JSON value, as \<open>if k\<close> tests it.\<close>

fun truthy :: "json \<Rightarrow> bool" where
  "truthy JNull = False"
| "truthy (JBool b) = b"
| "truthy (JInt n) = (n \<noteq> 0)"
| "truthy (JFloat f) = (f \<noteq> Fin 0)"
| "truthy (JStr s) = (s \<noteq> [])"
| "truthy (JArr xs) = (xs \<noteq> [])"
| "truthy (JObj kvs) = (kvs \<noteq> [])"

text \<open>\<open>re.split\<close> on a class of single characters.\<close>

fun split_on :: "(nat \<Rightarrow> bool) \<Rightarrow> pystr \<Rightarrow> pystr list" where
  "split_on P [] = [[]]"
| "split_on P (c # cs) =
     (if P c then [] # split_on P cs
      else (case split_on P cs of [] \<Rightarrow> [[c]] | w # ws \<Rightarrow> (c # w) # ws))"

text \<open>
  \<open>float(v)\<close>. An \<open>int\<close> converts unless it rounds to \<open>2 ^ 1024\<close> or beyond, where
  \<open>float\<close> raises \<open>OverflowError\<close>; \<open>bool\<close> is a subtype of \<open>int\<close>.
\<close>

definition float_overflows :: "int \<Rightarrow> bool" where
  "float_overflows n = (2 ^ 1024 - 2 ^ 970 \<le> \<bar>n\<bar>)"

fun py_float :: "pylib \<Rightarrow> json \<Rightarrow> py_error + pyfloat" where
  "py_float lib JNull = Inl TypeError"
| "py_float lib (JBool b) = Inr (Fin (if b then 1 else 0))"
| "py_float lib (JInt n) =
     (if float_overflows n then Inl OverflowError else Inr (Fin (of_int n)))"
| "py_float lib (JFloat f) = Inr f"
| "py_float lib (JStr s) =
     (case float_str lib s of None \<Rightarrow> Inl ValueError | Some f \<Rightarrow> Inr f)"
| "py_float lib (JArr xs) = Inl TypeError"
| "py_float lib (JObj kvs) = Inl TypeError"

text \<open>Comparison of floats: every comparison with NaN is false.\<close>

fun float_lt :: "pyfloat \<Rightarrow> pyfloat \<Rightarrow> bool" where
  "float_lt (Fin x) (Fin y) = (x < y)"
| "float_lt (Fin x) PosInf = True"
| "float_lt NegInf (Fin y) = True"
| "float_lt NegInf PosInf = True"
| "float_lt a b = False"

definition float_le :: "pyfloat \<Rightarrow> pyfloat \<Rightarrow> bool" where
  "float_le a b = (float_lt a b \<or> (a = b \<and> a \<noteq> NaN))"

record normalized =
  n_is_question :: bool
  n_asks_recommendation :: bool
  n_mentions_cost :: bool
  n_mentions_platform :: bool
  n_signal_score :: pyfloat
  n_detected_keywords :: "pystr list"

definition normalize_payload :: "pylib \<Rightarrow> (pystr \<times> json) list \<Rightarrow> py_error + normalized" where
  "normalize_payload lib data =
     (let q = coerce_bool lib (dict_get data (py ''is_question''));
          r = coerce_bool lib (dict_get data (py ''asks_recommendation''));
          c = coerce_bool lib (dict_get data (py ''mentions_cost''));
          p = coerce_bool lib (dict_get data (py ''mentions_platform''));
          keywords =
            (case (case map_of data (py ''detected_keywords'') of
                     None \<Rightarrow> JArr []
                   | Some v \<Rightarrow> v) of
               JStr s \<Rightarrow>
                 map JStr
                   (filter (\<lambda>k. k \<noteq> [])
                      (map (strip lib) (split_on (\<lambda>ch. ch = 44 \<or> ch = 10) s)))
             | JArr xs \<Rightarrow> xs
             | _ \<Rightarrow> []);
          keywords =
            map (\<lambda>k. case k of JStr s \<Rightarrow> s | _ \<Rightarrow> str_json lib k) (filter truthy keywords);
          computed_score = Fin (score_from_flags q r c p)
      in (case (case py_float lib (dict_get data (py ''signal_score'')) of
                  Inl TypeError \<Rightarrow> Inr computed_score
                | Inl ValueError \<Rightarrow> Inr computed_score
                | Inl e \<Rightarrow> Inl e
                | Inr f \<Rightarrow> Inr f) of
            Inl e \<Rightarrow> Inl e
          | Inr f \<Rightarrow>
              Inr \<lparr>n_is_question = q, n_asks_recommendation = r, n_mentions_cost = c,
                   n_mentions_platform = p,
                   n_signal_score =
                     (if float_lt f (Fin 0) \<or> float_lt (Fin 1) f then computed_score
                      else f),
                   n_detected_keywords =
                     (if keywords = [] then keywords_from_flags q r c p
                      else keywords)\<rparr>))"

subsection \<open>\<open>parse_llm_signal_response\<close> and \<open>score_text_llm\<close>\<close>

text \<open>
  \<open>LLMSignalResponse(**normalized)\<close>: the flags are booleans and the keywords strings
  already, so the only constraint that can fail is \<open>Field(ge=0.0, le=1.0)\<close> on
  \<open>signal_score\<close>; \<open>None\<close> stands for \<open>ValidationError\<close>.
\<close>

definition LLMSignalResponse :: "normalized \<Rightarrow> SignalResult option" where
  "LLMSignalResponse n =
     (case n_signal_score n of
        Fin x \<Rightarrow>
          if float_le (Fin 0) (Fin x) \<and> float_le (Fin x) (Fin 1)
          then Some \<lparr>is_question = n_is_question n,
                     asks_recommendation = n_asks_recommendation n,
                     mentions_cost = n_mentions_cost n,
                     mentions_platform = n_mentions_platform n,
                     signal_score = x,
                     detected_keywords = n_detected_keywords n\<rparr>
          else None
      | _ \<Rightarrow> None)"

definition parse_llm_signal_response ::
  "pylib \<Rightarrow> pystr \<Rightarrow> py_error + SignalResult option" where
  "parse_llm_signal_response lib response =
     (case extract_json lib response of
        Inl e \<Rightarrow> Inl e
      | Inr None \<Rightarrow> Inr None
      | Inr (Some payload) \<Rightarrow>
          if payload = [] then Inr None
          else (case normalize_payload lib payload of
                  Inl e \<Rightarrow> Inl e
                | Inr n \<Rightarrow> Inr (LLMSignalResponse n)))"

text \<open>\<open>s[:n]\<close> for an \<open>int\<close> \<open>n\<close>: a negative \<open>n\<close> counts from the end.\<close>

definition slice_to :: "int \<Rightarrow> pystr \<Rightarrow> pystr" where
  "slice_to n s = (if 0 \<le> n then take (nat n) s else take (length s - nat (- n)) s)"

definition nl :: pystr where
  "nl = [10]"

definition PROMPT_HEAD :: pystr where
  "PROMPT_HEAD =
     py ''You are classifying a UK personal finance Reddit post/comment for pain-point signals.''
     @ nl @ nl @ py ''TEXT:'' @ nl"

definition PROMPT_TAIL :: pystr where
  "PROMPT_TAIL =
     nl @ nl @ py ''Respond with ONLY valid JSON in this exact format:'' @ nl
     @ py ''{'' @ nl
     @ py ''  '' @ [34] @ py ''is_question'' @ [34] @ py '': true/false,'' @ nl
     @ py ''  '' @ [34] @ py ''asks_recommendation'' @ [34] @ py '': true/false,'' @ nl
     @ py ''  '' @ [34] @ py ''mentions_cost'' @ [34] @ py '': true/false,'' @ nl
     @ py ''  '' @ [34] @ py ''mentions_platform'' @ [34] @ py '': true/false,'' @ nl
     @ py ''  '' @ [34] @ py ''signal_score'' @ [34] @ py '': 0.0 to 1.0,'' @ nl
     @ py ''  '' @ [34] @ py ''detected_keywords'' @ [34] @ py '': ['' @ [34] @ py ''short''
     @ [34] @ py '', '' @ [34] @ py ''keywords'' @ [34] @ py '']'' @ nl
     @ py ''}'' @ nl @ nl
     @ py ''Rules:'' @ nl
     @ py ''- is_question: direct or implied question/seeking advice'' @ nl
     @ py ''- asks_recommendation: asks for product/bank/broker/app recommendation or comparison''
     @ nl
     @ py ''- mentions_cost: mentions fees, interest rates, APR, prices, or costs'' @ nl
     @ py ''- mentions_platform: names a bank/platform/broker/app/product'' @ nl
     @ py ''- signal_score: higher for multiple signals (0.7+ for question+recommendation, ~0.5 for one strong signal)''
     @ nl @ nl @ py ''JSON response:''"

definition SIGNAL_PROMPT :: "pystr \<Rightarrow> pystr" where
  "SIGNAL_PROMPT text = PROMPT_HEAD @ text @ PROMPT_TAIL"

text \<open>
  The call of the provider is the effect of \<open>score_text_llm\<close>: the function takes the
  list of the prompts sent so far and returns it with its own prompt appended when it
  calls \<open>call_llm\<close>. An exception that leaves the function is the \<open>Inl\<close> of the result.
\<close>

definition score_text_llm ::
  "pylib \<Rightarrow> pystr option \<Rightarrow> int \<Rightarrow> pystr list \<Rightarrow> (py_error + SignalResult) \<times> pystr list" where
  "score_text_llm lib text max_chars sent =
     (case text of
        None \<Rightarrow> (Inr (score_text lib text), sent)
      | Some t \<Rightarrow>
          if t = [] \<or> strip lib t = [] then (Inr (score_text lib text), sent)
          else
            let snippet = strip lib t;
                snippet =
                  (if max_chars < int (length snippet)
                   then slice_to max_chars snippet @ py ''...''
                   else snippet);
                prompt = SIGNAL_PROMPT snippet;
                response = call_llm lib prompt
            in ((case parse_llm_signal_response lib
                        (case response of None \<Rightarrow> [] | Some resp \<Rightarrow> resp) of
                   Inl e \<Rightarrow> Inl e
                 | Inr (Some parsed) \<Rightarrow> Inr parsed
                 | Inr None \<Rightarrow> Inr (score_text lib text)),
                sent @ [prompt]))"

section \<open>HybridDecisionPolicy: \<open>_score_text_with_method\<close> of \<open>score_signals.py\<close>\<close>

definition score_text_with_method ::
  "pylib \<Rightarrow> pystr option \<Rightarrow> string \<Rightarrow> pyfloat \<Rightarrow> pystr list \<Rightarrow>
     (py_error + SignalResult) \<times> pystr list" where
  "score_text_with_method lib text_body method hybrid_min_score sent =
     (if method = ''rules'' then (Inr (score_text lib text_body), sent)
      else if method = ''llm'' then score_text_llm lib text_body 1000 sent
      else if method = ''hybrid'' then
        (let rule_result = score_text lib text_body
         in if float_le hybrid_min_score (Fin (signal_score rule_result))
               \<or> is_question rule_result \<or> asks_recommendation rule_result
            then (Inr rule_result, sent)
            else score_text_llm lib text_body 1000 sent)
      else (Inl ValueError, sent))"

section \<open>The relational store\<close>

text \<open>
  The tables the core reads and writes, with the columns it uses. A table that is probed
  by its primary key is a map from the key to the rest of the row; \<open>cluster_membership\<close>,
  which the aggregation scans, and \<open>weekly_theme_stats\<close>, which it fills, are lists of
  rows. A \<open>TIMESTAMPTZ\<close> is the number of microseconds since the Unix epoch and a
  \<open>DATE\<close> the number of days since it, both in UTC; \<open>DOUBLE PRECISION\<close> and
  \<open>numeric\<close> values are real numbers. \<open>now()\<close> is an argument of every operation
  that reads the clock.
\<close>

record post =
  p_subreddit :: string
  p_title :: "pystr option"
  p_body :: "pystr option"
  p_created_utc :: "int option"
  p_score :: "int option"

record membership =
  cm_content_type :: string
  cm_content_id :: string
  cm_cluster_id :: int

record signal_row =
  s_post_id :: string
  s_is_question :: bool
  s_asks_recommendation :: bool
  s_mentions_cost :: bool
  s_mentions_platform :: bool
  s_signal_score :: real
  s_detected_keywords :: "pystr list"
  s_collected_at :: int

record stat_row =
  week_start :: int
  cluster_id :: int
  cluster_label :: "string option"
  doc_count :: int
  signal_sum :: real
  avg_score :: "real option"
  growth_pct :: "real option"
  computed_at :: int

record db =
  posts :: "string \<rightharpoonup> post"
  clusters :: "int \<rightharpoonup> string option"
  cluster_membership :: "membership list"
  signals :: "string \<times> string \<rightharpoonup> signal_row"
  weekly_theme_stats :: "stat_row list"

datatype sql_error = CheckViolation | ForeignKeyViolation | InvalidRowCount

section \<open>SignalStore: \<open>_upsert_signal\<close> of \<open>score_signals.py\<close>\<close>


section \<open>TrendAggregator: \<open>compute_weekly_trends\<close> of \<open>trends.py\<close>\<close>

definition usec_per_day :: int where
  "usec_per_day = 86400000000"

text \<open>
  \<open>date_trunc('week', ts)::date\<close>: the Monday of the week of \<open>ts\<close>, for a session in
  UTC. Day 0 of the epoch is a Thursday.
\<close>

definition date_trunc_week :: "int \<Rightarrow> int" where
  "date_trunc_week ts = (let d = ts div usec_per_day in d - (d + 3) mod 7)"

text \<open>The aggregates \<open>SUM\<close> and \<open>AVG\<close> skip NULLs and are NULL when nothing is left.\<close>

definition non_null :: "'a option list \<Rightarrow> 'a list" where
  "non_null xs = concat (map (\<lambda>x. case x of None \<Rightarrow> [] | Some v \<Rightarrow> [v]) xs)"

definition sql_sum :: "real option list \<Rightarrow> real option" where
  "sql_sum xs = (if non_null xs = [] then None else Some (sum_list (non_null xs)))"

definition sql_avg :: "real option list \<Rightarrow> real option" where
  "sql_avg xs =
     (if non_null xs = [] then None
      else Some (sum_list (non_null xs) / of_nat (length (non_null xs))))"

definition coalesce :: "'a option \<Rightarrow> 'a \<Rightarrow> 'a" where
  "coalesce x d = (case x of None \<Rightarrow> d | Some v \<Rightarrow> v)"

text \<open>
  The rows of the join under the \<open>WHERE\<close> clause, one per membership row that survives:
  the week, the cluster, its label, \<open>p.score\<close> and \<open>s.signal_score\<close> (NULL where the
  \<open>LEFT JOIN\<close> finds no signal).
\<close>

definition joined_rows ::
  "db \<Rightarrow> int \<Rightarrow> int \<Rightarrow> (int \<times> int \<times> string option \<times> int option \<times> real option) list" where
  "joined_rows conn now lookback_weeks =
     concat (map (\<lambda>cm.
       if cm_content_type cm \<noteq> ''post'' then []
       else (case posts conn (cm_content_id cm) of
               None \<Rightarrow> []
             | Some p \<Rightarrow>
                 (case clusters conn (cm_cluster_id cm) of
                    None \<Rightarrow> []
                  | Some c_label \<Rightarrow>
                      (case p_created_utc p of
                         None \<Rightarrow> []
                       | Some created \<Rightarrow>
                           if now - lookback_weeks * 7 * usec_per_day \<le> created
                              \<and> 0 \<le> cm_cluster_id cm
                           then [(date_trunc_week created, cm_cluster_id cm, c_label,
                                  p_score p,
                                  map_option s_signal_score
                                    (signals conn (''post'', cm_content_id cm)))]
                           else []))))
       (cluster_membership conn))"

record weekly_doc =
  wd_week_start :: int
  wd_cluster_id :: int
  wd_cluster_label :: "string option"
  wd_doc_count :: int
  wd_signal_sum :: real
  wd_avg_score :: "real option"

text \<open>The CTE \<open>weekly_docs\<close>: \<open>GROUP BY 1, 2, 3\<close> with its three aggregates.\<close>

definition weekly_docs :: "db \<Rightarrow> int \<Rightarrow> int \<Rightarrow> weekly_doc list" where
  "weekly_docs conn now lookback_weeks =
     (let rows = joined_rows conn now lookback_weeks;
          keys = remdups (map (\<lambda>(w, c, l, sc, sg). (w, c, l)) rows)
      in map (\<lambda>(w, c, l).
           let grp = filter (\<lambda>(w', c', l', sc, sg). (w', c', l') = (w, c, l)) rows
           in \<lparr>wd_week_start = w, wd_cluster_id = c, wd_cluster_label = l,
               wd_doc_count = int (length grp),
               wd_signal_sum = coalesce (sql_sum (map (\<lambda>(w', c', l', sc, sg). sg) grp)) 0,
               wd_avg_score =
                 sql_avg (map (\<lambda>(w', c', l', sc, sg). map_option of_int sc) grp)\<rparr>)
         keys)"

text \<open>
  The CTE \<open>with_prior\<close>: \<open>LAG(doc_count) OVER (PARTITION BY cluster_id ORDER BY
  week_start)\<close>. Each partition is sorted by week, and every row gets the \<open>doc_count\<close> of
  the row before it in its partition, NULL for the first.
\<close>

fun lag_doc_count :: "int option \<Rightarrow> weekly_doc list \<Rightarrow> (weekly_doc \<times> int option) list" where
  "lag_doc_count prev [] = []"
| "lag_doc_count prev (r # rs) = (r, prev) # lag_doc_count (Some (wd_doc_count r)) rs"

definition with_prior :: "weekly_doc list \<Rightarrow> (weekly_doc \<times> int option) list" where
  "with_prior wd =
     concat (map (\<lambda>c. lag_doc_count None
                         (sort_key wd_week_start (filter (\<lambda>r. wd_cluster_id r = c) wd)))
               (remdups (map wd_cluster_id wd)))"

text \<open>
  \<open>ROUND(x, d)\<close> on \<open>numeric\<close>: to \<open>d\<close> decimals, ties away from zero. The division
  before it is taken as exact.
\<close>

definition round_numeric :: "real \<Rightarrow> nat \<Rightarrow> real" where
  "round_numeric x d = sgn x * of_int \<lfloor>\<bar>x\<bar> * 10 ^ d + 1 / 2\<rfloor> / 10 ^ d"

definition growth_pct_of :: "int \<Rightarrow> int option \<Rightarrow> real option" where
  "growth_pct_of dc prior_count =
     (case prior_count of
        None \<Rightarrow> None
      | Some pc \<Rightarrow>
          if pc = 0 then None
          else Some (round_numeric ((of_int (dc - pc) / of_int pc) * 100) 1))"

record TrendsResult =
  weeks_computed :: nat
  rows_inserted :: nat

text \<open>
  \<open>compute_weekly_trends\<close>: the \<open>DELETE\<close>, then the \<open>INSERT ... SELECT\<close> over the two
  CTEs, then the count of the distinct weeks of the table. The rows inserted satisfy
  the constraints of the table (\<open>weekly_theme_stats_key\<close> and
  \<open>weekly_theme_stats_row\<close> below), so the model has no error value.
\<close>

definition compute_weekly_trends :: "db \<Rightarrow> int \<Rightarrow> int \<Rightarrow> db \<times> TrendsResult" where
  "compute_weekly_trends conn now lookback_weeks =
     (let cleared = conn\<lparr>weekly_theme_stats := []\<rparr>;
          inserted =
            map (\<lambda>(wd, prior_count).
                   \<lparr>week_start = wd_week_start wd, cluster_id = wd_cluster_id wd,
                    cluster_label = wd_cluster_label wd, doc_count = wd_doc_count wd,
                    signal_sum = wd_signal_sum wd, avg_score = wd_avg_score wd,
                    growth_pct = growth_pct_of (wd_doc_count wd) prior_count,
                    computed_at = now\<rparr>)
              (with_prior (weekly_docs cleared now lookback_weeks));
          final = cleared\<lparr>weekly_theme_stats := weekly_theme_stats cleared @ inserted\<rparr>
      in (final,
          \<lparr>weeks_computed = length (remdups (map week_start (weekly_theme_stats final))),
           rows_inserted = length inserted\<rparr>))"

section \<open>TrendQueryService: \<open>get_trending_themes\<close> of \<open>trends.py\<close>\<close>

record recent_row =
  r_cluster_id :: int
  r_cluster_label :: "string option"
  r_total_docs :: int
  r_avg_signal :: "real option"
  r_avg_growth :: "real option"

text \<open>The CTE \<open>recent\<close>: the rows of the window, grouped by cluster and label.\<close>

definition recent :: "db \<Rightarrow> int \<Rightarrow> int \<Rightarrow> int \<Rightarrow> recent_row list" where
  "recent conn now weeks min_docs =
     (let rows = filter (\<lambda>r. now - weeks * 7 * usec_per_day \<le> week_start r * usec_per_day)
                   (weekly_theme_stats conn);
          keys = remdups (map (\<lambda>r. (cluster_id r, cluster_label r)) rows)
      in filter (\<lambda>g. min_docs \<le> r_total_docs g)
           (map (\<lambda>(c, l).
              let grp = filter (\<lambda>r. (cluster_id r, cluster_label r) = (c, l)) rows
              in \<lparr>r_cluster_id = c, r_cluster_label = l,
                  r_total_docs = sum_list (map doc_count grp),
                  r_avg_signal = sql_avg (map (\<lambda>r. Some (signal_sum r)) grp),
                  r_avg_growth = sql_avg (map growth_pct grp)\<rparr>)
            keys))"

definition trend_score :: "recent_row \<Rightarrow> real" where
  "trend_score g = coalesce (r_avg_growth g) 0 + of_int (r_total_docs g) * (5 / 10)"

text \<open>Python's \<open>round(x, d)\<close>: to \<open>d\<close> decimals, ties to the even neighbour.\<close>

definition round_half_even :: "real \<Rightarrow> int" where
  "round_half_even y =
     (let f = \<lfloor>y\<rfloor>
      in if y - of_int f < 1 / 2 then f
         else if 1 / 2 < y - of_int f then f + 1
         else if even f then f else f + 1)"

definition py_round :: "real \<Rightarrow> nat \<Rightarrow> real" where
  "py_round x d = of_int (round_half_even (x * 10 ^ d)) / 10 ^ d"

record theme =
  th_cluster_id :: int
  th_label :: "string option"
  th_total_docs :: int
  th_avg_signal :: real
  th_avg_growth :: "real option"
  th_trend_score :: real

text \<open>
  \<open>get_trending_themes\<close>: \<open>ORDER BY trend_score DESC LIMIT :limit\<close> (a negative limit
  is an error of the store), then the dictionaries built from the rows. In
  \<open>x if x else None\<close> and \<open>x or 0\<close> a float that is zero counts as false.
\<close>

definition get_trending_themes ::
  "db \<Rightarrow> int \<Rightarrow> int \<Rightarrow> int \<Rightarrow> int \<Rightarrow> sql_error + theme list" where
  "get_trending_themes conn now weeks min_docs limit =
     (if limit < 0 then Inl InvalidRowCount
      else
        let rows = take (nat limit)
                     (sort_key (\<lambda>g. - trend_score g) (recent conn now weeks min_docs))
        in Inr (map (\<lambda>g.
                  \<lparr>th_cluster_id = r_cluster_id g,
                   th_label = r_cluster_label g,
                   th_total_docs = r_total_docs g,
                   th_avg_signal = py_round (coalesce (r_avg_signal g) 0) 2,
                   th_avg_growth =
                     (case r_avg_growth g of
                        None \<Rightarrow> None
                      | Some a \<Rightarrow> if a = 0 then None else Some (py_round a 1)),
                   th_trend_score = py_round (trend_score g) 2\<rparr>)
                rows))"

text \<open>
  For the statements about the table: \<open>preceding_week T r q\<close> says that \<open>q\<close> is the row
  of \<open>T\<close> for the cluster of \<open>r\<close> with the latest week before the week of \<open>r\<close>; and
  \<open>posts_only\<close> is the store without the memberships and the signals of any content
  type other than \<open>post\<close>.
\<close>

definition preceding_week :: "stat_row list \<Rightarrow> stat_row \<Rightarrow> stat_row \<Rightarrow> bool" where
  "preceding_week T r q \<longleftrightarrow>
     q \<in> set T \<and> cluster_id q = cluster_id r \<and> week_start q < week_start r \<and>
     (\<forall>q'\<in>set T. cluster_id q' = cluster_id r \<and> week_start q' < week_start r
         \<longrightarrow> week_start q' \<le> week_start q)"

definition posts_only :: "db \<Rightarrow> db" where
  "posts_only conn =
     conn\<lparr>cluster_membership :=
            filter (\<lambda>m. cm_content_type m = ''post'') (cluster_membership conn),
          signals := (\<lambda>k. if fst k = ''post'' then signals conn k else None)\<rparr>"

section \<open>A small store for evaluating the definitions\<close>

text \<open>
  One cluster and three posts: two created in the week of Monday 5 January 1970 (day 4)
  and one in the week after. A comment is a member of the cluster too and has a signal.
\<close>

definition demo_post :: "int \<Rightarrow> int option \<Rightarrow> post" where
  "demo_post day sc =
     \<lparr>p_subreddit = ''UKPersonalFinance'', p_title = None, p_body = None,
      p_created_utc = Some (day * usec_per_day), p_score = sc\<rparr>"

definition demo_signal :: "string \<Rightarrow> real \<Rightarrow> signal_row" where
  "demo_signal pid sc =
     \<lparr>s_post_id = pid, s_is_question = True, s_asks_recommendation = False,
      s_mentions_cost = True, s_mentions_platform = False, s_signal_score = sc,
      s_detected_keywords = [], s_collected_at = 0\<rparr>"

definition demo_db :: db where
  "demo_db =
     \<lparr>posts = [''a'' \<mapsto> demo_post 4 (Some 4), ''b'' \<mapsto> demo_post 5 None,
               ''c'' \<mapsto> demo_post 11 (Some 2)],
      clusters = [1 \<mapsto> Some ''isa''],
      cluster_membership =
        [\<lparr>cm_content_type = ''post'', cm_content_id = ''a'', cm_cluster_id = 1\<rparr>,
         \<lparr>cm_content_type = ''post'', cm_content_id = ''b'', cm_cluster_id = 1\<rparr>,
         \<lparr>cm_content_type = ''comment'', cm_content_id = ''k'', cm_cluster_id = 1\<rparr>,
         \<lparr>cm_content_type = ''post'', cm_content_id = ''c'', cm_cluster_id = 1\<rparr>],
      signals = [(''post'', ''a'') \<mapsto> demo_signal ''a'' (55 / 100),
                 (''comment'', ''k'') \<mapsto> demo_signal ''a'' (35 / 100)],
      weekly_theme_stats = []\<rparr>"

definition demo_stats :: "stat_row list" where
  "demo_stats =
     [\<lparr>week_start = 4, cluster_id = 1, cluster_label = Some ''isa'', doc_count = 2,
       signal_sum = 55 / 100, avg_score = Some 4, growth_pct = None,
       computed_at = 12 * usec_per_day\<rparr>,
      \<lparr>week_start = 11, cluster_id = 1, cluster_label = Some ''isa'', doc_count = 1,
       signal_sum = 0, avg_score = Some 2, growth_pct = Some (- 50),
       computed_at = 12 * usec_per_day\<rparr>]"


text \<open>
  A second store, with one post of the cluster in each of two consecutive weeks and no
  signal, and the table the aggregation computes from it.
\<close>

definition flat_db :: db where
  "flat_db =
     demo_db\<lparr>cluster_membership :=
               [\<lparr>cm_content_type = ''post'', cm_content_id = ''a'', cm_cluster_id = 1\<rparr>,
                \<lparr>cm_content_type = ''post'', cm_content_id = ''c'', cm_cluster_id = 1\<rparr>],
             signals := Map.empty\<rparr>"

definition flat_stats :: "stat_row list" where
  "flat_stats =
     [\<lparr>week_start = 4, cluster_id = 1, cluster_label = Some ''isa'', doc_count = 1,
       signal_sum = 0, avg_score = Some 4, growth_pct = None,
       computed_at = 12 * usec_per_day\<rparr>,
      \<lparr>week_start = 11, cluster_id = 1, cluster_label = Some ''isa'', doc_count = 1,
       signal_sum = 0, avg_score = Some 2, growth_pct = Some 0,
       computed_at = 12 * usec_per_day\<rparr>]"

section \<open>A provider reply with an integer beyond the range of \<open>float\<close>\<close>

text \<open>
  The reply is the JSON text of an object whose only member is \<open>signal_score\<close>, with
  the value 1 followed by 400 zeros. \<open>overflow_lib\<close> is \<open>ascii_lib\<close> with a provider
  that sends this reply and a \<open>json.loads\<close> that parses it (to the \<open>int\<close> \<open>huge\<close>) and
  rejects every other text.
\<close>

definition overflow_reply :: pystr where
  "overflow_reply =
     [123, 34] @ py ''signal_score'' @ [34, 58, 32, 49] @ replicate 400 48 @ [125]"

definition huge :: int where
  "huge = 10 ^ 400"

definition overflow_lib :: pylib where
  "overflow_lib =
     ascii_lib\<lparr>json_loads :=
                 (\<lambda>s. if s = overflow_reply
                      then Inr (Some [(py ''signal_score'', JInt huge)]) else Inr None),
               call_llm := (\<lambda>prompt. Some overflow_reply)\<rparr>"

section \<open>A provider reply whose score is not a number\<close>

text \<open>
  \<open>json.loads\<close> accepts the literals \<open>NaN\<close>, \<open>Infinity\<close> and \<open>-Infinity\<close>.
  \<open>nan_payload\<close> is the object it returns for a reply that sets \<open>is_question\<close> to
  \<open>true\<close> and \<open>signal_score\<close> to \<open>NaN\<close> and has no other member.
\<close>

definition nan_payload :: "(pystr \<times> json) list" where
  "nan_payload = [(py ''is_question'', JBool True), (py ''signal_score'', JFloat NaN)]"

section \<open>Properties of RuleScorer\<close>

lemma strip_blank: "list_all (str_isspace lib) t \<Longrightarrow> strip lib t = []"
proof -
  assume "list_all (str_isspace lib) t"
  then have d: "dropWhile (str_isspace lib) t = []"
    by (simp add: list_all_iff)
  show ?thesis unfolding strip_def d by simp
qed

text \<open>None of the four patterns matches the empty string.\<close>

lemma search_empty:
  "re_search QUESTION_PAT lib [] = None"
  "re_search RECOMMEND_PAT lib [] = None"
  "re_search COST_PAT lib [] = None"
  "re_search PLATFORM_PAT lib [] = None"
  by (simp_all add: re_search_def QUESTION_PAT_def RECOMMEND_PAT_def COST_PAT_def
      PLATFORM_PAT_def lit_def)

lemma score_text_shape:
  "\<exists>q r c p d. score_text lib text =
     \<lparr>is_question = q, asks_recommendation = r, mentions_cost = c,
      mentions_platform = p,
      signal_score =
        min 1 (0 + (if q then 35 / 100 else 0) + (if r then 35 / 100 else 0) +
               (if c then 2 / 10 else 0) + (if p then 2 / 10 else 0)),
      detected_keywords = d\<rparr>"
proof -
  have b0: "no_signal =
     \<lparr>is_question = False, asks_recommendation = False, mentions_cost = False,
      mentions_platform = False,
      signal_score =
        min 1 (0 + (if False then 35 / 100 else 0) + (if False then 35 / 100 else 0) +
               (if False then 2 / 10 else 0) + (if False then 2 / 10 else 0)),
      detected_keywords = []\<rparr>"
    by (simp add: no_signal_def)
  have blank: "\<exists>q r c p d. no_signal =
     \<lparr>is_question = q, asks_recommendation = r, mentions_cost = c,
      mentions_platform = p,
      signal_score =
        min 1 (0 + (if q then 35 / 100 else 0) + (if r then 35 / 100 else 0) +
               (if c then 2 / 10 else 0) + (if p then 2 / 10 else 0)),
      detected_keywords = d\<rparr>"
    by (intro exI) (rule b0)
  show ?thesis
  proof (cases "text")
    case None
    then show ?thesis using blank by (simp add: score_text_def)
  next
    case (Some t)
    show ?thesis
    proof (cases "t = []")
      case True
      then show ?thesis using blank Some by (simp add: score_text_def)
    next
      case False
      show ?thesis
        unfolding score_text_def Let_def Some option.case if_not_P [OF False]
        by (intro exI) (rule refl)
    qed
  qed
qed

text \<open>
  C2. The score of \<open>score_text\<close> is the sum of 0.35 for \<open>is_question\<close>, 0.35 for
  \<open>asks_recommendation\<close>, 0.2 for \<open>mentions_cost\<close> and 0.2 for \<open>mentions_platform\<close>,
  capped at 1; so it lies between 0 and 1, it is 0 exactly when the four flags are
  false and 1 exactly when the four are true. This holds for every input, the empty and
  the missing text included, and for every behaviour of the library's character
  classes. (The sum is taken over the reals.)
\<close>

theorem score_text_additive:
  "signal_score (score_text lib text) =
     min 1 ((if is_question (score_text lib text) then 35 / 100 else 0) +
            (if asks_recommendation (score_text lib text) then 35 / 100 else 0) +
            (if mentions_cost (score_text lib text) then 2 / 10 else 0) +
            (if mentions_platform (score_text lib text) then 2 / 10 else 0))
   \<and> 0 \<le> signal_score (score_text lib text)
   \<and> signal_score (score_text lib text) \<le> 1
   \<and> (signal_score (score_text lib text) = 0 \<longleftrightarrow>
        \<not> is_question (score_text lib text) \<and> \<not> asks_recommendation (score_text lib text) \<and>
        \<not> mentions_cost (score_text lib text) \<and> \<not> mentions_platform (score_text lib text))
   \<and> (signal_score (score_text lib text) = 1 \<longleftrightarrow>
        is_question (score_text lib text) \<and> asks_recommendation (score_text lib text) \<and>
        mentions_cost (score_text lib text) \<and> mentions_platform (score_text lib text))"
proof -
  obtain q r c p d where e: "score_text lib text =
     \<lparr>is_question = q, asks_recommendation = r, mentions_cost = c,
      mentions_platform = p,
      signal_score =
        min 1 (0 + (if q then 35 / 100 else 0) + (if r then 35 / 100 else 0) +
               (if c then 2 / 10 else 0) + (if p then 2 / 10 else 0)),
      detected_keywords = d\<rparr>"
    using score_text_shape by blast
  show ?thesis
    unfolding e by (cases q; cases r; cases c; cases p) simp_all
qed

lemma score_text_fee:
  "score_text ascii_lib (Some (py ''fee?'')) =
     \<lparr>is_question = True, asks_recommendation = False, mentions_cost = True,
      mentions_platform = False, signal_score = 55 / 100,
      detected_keywords = [py ''question'', py ''cost'']\<rparr>"
  by code_simp

theorem score_text_additive_witness:
  "signal_score (score_text ascii_lib (Some (py ''fee?''))) = 55 / 100"
  using score_text_additive [of ascii_lib "Some (py ''fee?'')"]
  by (simp add: score_text_fee)

lemma score_text_stripped_empty:
  "strip lib t = [] \<Longrightarrow> score_text lib (Some t) = no_signal"
  unfolding score_text_def Let_def
  by (simp only: search_empty option.case) (simp add: no_signal_def)

text \<open>
  C9. \<open>score_text\<close> returns a result on every input: the model has no error value
  because the source has no operation that raises. On a missing text, and on every text
  that consists of whitespace only (the empty text included), the result has the four
  flags false, the score 0 and no keyword.
\<close>

theorem score_text_blank:
  "score_text lib None =
     \<lparr>is_question = False, asks_recommendation = False, mentions_cost = False,
      mentions_platform = False, signal_score = 0, detected_keywords = []\<rparr>
   \<and> (list_all (str_isspace lib) t \<longrightarrow>
        score_text lib (Some t) =
          \<lparr>is_question = False, asks_recommendation = False, mentions_cost = False,
           mentions_platform = False, signal_score = 0, detected_keywords = []\<rparr>)"
proof -
  have "score_text lib None = no_signal"
    by (simp add: score_text_def)
  moreover have "list_all (str_isspace lib) t \<longrightarrow> score_text lib (Some t) = no_signal"
    using score_text_stripped_empty [OF strip_blank] by blast
  ultimately show ?thesis
    by (simp add: no_signal_def)
qed

theorem score_text_blank_witness:
  "list_all (str_isspace ascii_lib) [32, 9, 10] \<and>
   score_text ascii_lib (Some [32, 9, 10]) =
     \<lparr>is_question = False, asks_recommendation = False, mentions_cost = False,
      mentions_platform = False, signal_score = 0, detected_keywords = []\<rparr>"
proof -
  have h: "list_all (str_isspace ascii_lib) [32, 9, 10]"
    by (simp add: ascii_lib_def)
  show ?thesis
    using h score_text_blank [of ascii_lib "[32, 9, 10]"] by simp
qed

section \<open>Properties of LLMSignalClassifier\<close>

text \<open>
  A reply that is one brace-delimited text without a backquote reaches \<open>json.loads\<close>
  unchanged: the fences are not there to strip, and the greedy \<open>.*\<close> takes all that
  lies between the first and the last brace.
\<close>


lemma fence_no_backquote:
  "i < length s \<Longrightarrow> s ! i \<noteq> 96 \<Longrightarrow> rx_ends FENCE_PAT lib s i = []"
  by (simp add: FENCE_PAT_def)

lemma re_sub_del_no_match:
  "(\<And>j. j < length s \<Longrightarrow> rx_ends r lib s j = []) \<Longrightarrow> re_sub_del r lib s i = drop i s"
proof (induction r lib s i rule: re_sub_del.induct)
  case (1 r lib s i)
  show ?case
  proof (cases "length s \<le> i")
    case True
    then show ?thesis by (simp add: re_sub_del.simps [of r lib s i])
  next
    case False
    then have i: "i < length s" by simp
    then have e: "rx_ends r lib s i = []" by (rule "1.prems")
    from "1.IH"(1) [OF False e] "1.prems"
    have "re_sub_del r lib s (Suc i) = drop (Suc i) s" by simp
    with i e show ?thesis
      by (simp add: re_sub_del.simps [of r lib s i] Cons_nth_drop_Suc)
  qed
qed

lemma re_sub_del_fence_id:
  assumes "96 \<notin> set s"
  shows "re_sub_del FENCE_PAT lib s 0 = s"
proof -
  have "rx_ends FENCE_PAT lib s j = []" if "j < length s" for j
  proof -
    from that assms have "s ! j \<noteq> 96" by (metis nth_mem)
    with that show ?thesis by (rule fence_no_backquote)
  qed
  then have "re_sub_del FENCE_PAT lib s 0 = drop 0 s"
    by (rule re_sub_del_no_match)
  then show ?thesis by simp
qed

lemma str_remove_backquotes_id:
  "96 \<notin> set s \<Longrightarrow> str_remove [96, 96, 96] s = s"
proof (induction s)
  case Nil
  then show ?case by (simp add: str_remove.simps [of _ "[]"])
next
  case (Cons x xs)
  then have "x \<noteq> 96" "str_remove [96, 96, 96] xs = xs" by simp_all
  then show ?case
    by (simp add: str_remove.simps [of _ "x # xs"])
qed

lemma star_iter_single_steps:
  assumes "\<And>j. f j = (if j < m then [Suc j] else [])"
  shows "i \<le> m \<Longrightarrow> m - i \<le> n \<Longrightarrow> star_iter f n i = rev [i..<Suc m]"
proof (induction n arbitrary: i)
  case 0
  then have "i = m" by simp
  then show ?case by simp
next
  case (Suc n)
  show ?case
  proof (cases "i < m")
    case True
    then have "star_iter f n (Suc i) = rev [Suc i..<Suc m]"
      using Suc.prems by (intro Suc.IH) simp_all
    with True show ?thesis
      by (simp add: assms [of i] upt_conv_Cons)
  next
    case False
    with Suc.prems have "i = m" by simp
    moreover have "f i = []" using False by (simp add: assms [of i])
    ultimately show ?thesis by simp
  qed
qed

lemma star_any_ends:
  "i \<le> length s \<Longrightarrow> length s - i \<le> n \<Longrightarrow>
   star_iter (rx_ends AnyChar lib s) n i = rev [i..<Suc (length s)]"
  by (rule star_iter_single_steps) simp_all

lemma brace_search_whole:
  assumes "s = 123 # body @ [125]"
  shows "re_search BRACE_PAT lib s = Some (0, length s)"
proof -
  have len: "length s = Suc (Suc (length body))" using assms by simp
  have last: "s ! Suc (length body) = 125"
    using assms by (simp add: nth_append)
  have star: "star_iter (rx_ends AnyChar lib s) (length s) (Suc 0) =
              rev [Suc 0..<Suc (length s)]"
    by (rule star_any_ends) (simp_all add: len)
  have "rev [Suc 0..<Suc (length s)] =
        length s # Suc (length body) # rev [Suc 0..<Suc (length body)]"
    by (simp add: len)
  with star have ends: "rx_ends BRACE_PAT lib s 0 =
        Suc (Suc (length body)) #
        concat (map (rx_ends (Seq (Chr 125) Eps) lib s) (rev [Suc 0..<Suc (length body)]))"
    using last by (simp add: BRACE_PAT_def len assms)
  have "[0..<Suc (length s)] = 0 # [Suc 0..<Suc (length s)]"
    by (rule upt_conv_Cons) simp
  with ends show ?thesis
    by (simp add: re_search_def len)
qed

lemma strip_id:
  assumes "s = a # body @ [b]" "\<not> str_isspace lib a" "\<not> str_isspace lib b"
  shows "strip lib s = s"
  using assms by (simp add: strip_def)

lemma extract_json_plain:
  assumes "s = 123 # body @ [125]" and "96 \<notin> set body"
    and "\<not> str_isspace lib 123" and "\<not> str_isspace lib 125"
  shows "extract_json lib s = json_loads lib s"
proof -
  have 1: "strip lib s = s" using assms(1,3,4) by (rule strip_id)
  have nb: "96 \<notin> set s" using assms(1,2) by simp
  have 2: "re_sub_del FENCE_PAT lib s 0 = s"
    using nb by (rule re_sub_del_fence_id)
  have 3: "str_remove [96, 96, 96] s = s" using nb by (rule str_remove_backquotes_id)
  have 4: "re_search BRACE_PAT lib s = Some (0, length s)"
    using assms(1) by (rule brace_search_whole)
  have "s \<noteq> []" using assms(1) by simp
  then show ?thesis
    unfolding extract_json_def Let_def 1 2 3 4 by simp
qed


lemma parse_empty: "parse_llm_signal_response lib [] = Inr None"
  by (simp add: parse_llm_signal_response_def extract_json_def)

lemma float_overflows_huge: "float_overflows huge"
proof -
  have "(2::int) ^ 1024 - 2 ^ 970 \<le> 2 ^ 1024" by simp
  also have "\<dots> \<le> (2::int) ^ 1200" by (rule power_increasing) simp_all
  also have "\<dots> = ((2::int) ^ 3) ^ 400" by (simp only: power_mult [symmetric]) simp
  also have "\<dots> \<le> (10::int) ^ 400" by (rule power_mono) simp_all
  finally have "(2::int) ^ 1024 - 2 ^ 970 \<le> 10 ^ 400" .
  moreover have "\<bar>(10::int) ^ 400\<bar> = 10 ^ 400" by (rule abs_of_nonneg) simp
  ultimately show ?thesis by (simp only: float_overflows_def huge_def)
qed

lemma overflow_reply_extract:
  "extract_json overflow_lib overflow_reply =
     Inr (Some [(py ''signal_score'', JInt huge)])"
proof -
  have "extract_json overflow_lib overflow_reply = json_loads overflow_lib overflow_reply"
    by (rule extract_json_plain
          [where body = "[34] @ py ''signal_score'' @ [34, 58, 32, 49] @ replicate 400 48"])
       (simp_all add: overflow_reply_def overflow_lib_def ascii_lib_def py_def)
  then show ?thesis by (simp add: overflow_lib_def)
qed

lemma overflow_normalize:
  "normalize_payload lib [(py ''signal_score'', JInt huge)] = Inl OverflowError"
  by (simp add: normalize_payload_def dict_get_def float_overflows_huge Let_def)

lemma overflow_parse:
  "parse_llm_signal_response overflow_lib overflow_reply = Inl OverflowError"
  by (simp add: parse_llm_signal_response_def overflow_reply_extract overflow_normalize)

lemma strip_walk:
  "strip overflow_lib (py ''I went for a walk today'') = py ''I went for a walk today''"
  by (simp add: strip_def py_def overflow_lib_def ascii_lib_def)


text \<open>
  What \<open>score_text_llm\<close> can do: an exception that leaves it is the
  \<open>OverflowError\<close> of \<open>float\<close> or an exception of \<open>json.loads\<close> other than
  \<open>JSONDecodeError\<close>; a score it returns lies between 0 and 1 (a NaN is taken to fail
  the constraints \<open>ge\<close> and \<open>le\<close>, as every comparison with it is false); and when
  no reply can be parsed (the provider fails, the reply holds no JSON object, the object
  is empty) it returns RuleScorer's result for the text it was given.
\<close>

lemma score_text_range:
  "0 \<le> signal_score (score_text lib text_body) \<and> signal_score (score_text lib text_body) \<le> 1"
proof -
  obtain q r c p d where e: "score_text lib text_body =
     \<lparr>is_question = q, asks_recommendation = r, mentions_cost = c,
      mentions_platform = p,
      signal_score =
        min 1 (0 + (if q then 35 / 100 else 0) + (if r then 35 / 100 else 0) +
               (if c then 2 / 10 else 0) + (if p then 2 / 10 else 0)),
      detected_keywords = d\<rparr>"
    using score_text_shape by blast
  show ?thesis unfolding e by simp
qed

lemma is_question_mark:
  "t \<noteq> [] \<Longrightarrow> 63 \<in> set (strip lib t) \<Longrightarrow> is_question (score_text lib (Some t))"
  unfolding score_text_def Let_def by simp

lemma py_float_error:
  "py_float lib v = Inl e \<Longrightarrow> e = TypeError \<or> e = ValueError \<or> e = OverflowError"
  by (cases v) (auto split: if_splits option.splits)

lemma normalize_payload_error:
  "normalize_payload lib data = Inl e \<Longrightarrow>
   e = OverflowError \<and> py_float lib (dict_get data (py ''signal_score'')) = Inl OverflowError"
proof -
  assume a: "normalize_payload lib data = Inl e"
  then have f: "py_float lib (dict_get data (py ''signal_score'')) = Inl e"
    and n: "e \<noteq> TypeError" "e \<noteq> ValueError"
    unfolding normalize_payload_def Let_def
    by (auto split: sum.splits py_error.splits)
  from py_float_error [OF f] n have "e = OverflowError" by simp
  with f show ?thesis by simp
qed

lemma extract_json_error:
  "extract_json lib resp = Inl e \<Longrightarrow> \<exists>s. json_loads lib s = Inl e"
  unfolding extract_json_def Let_def
  by (auto split: if_splits option.splits)

lemma LLMSignalResponse_range:
  "LLMSignalResponse n = Some r \<Longrightarrow> 0 \<le> signal_score r \<and> signal_score r \<le> 1"
  by (auto simp: LLMSignalResponse_def float_le_def split: pyfloat.splits if_splits)

lemma parse_llm_signal_response_cases:
  "parse_llm_signal_response lib resp = Inl OverflowError
   \<or> (\<exists>e s. json_loads lib s = Inl e \<and> parse_llm_signal_response lib resp = Inl e)
   \<or> parse_llm_signal_response lib resp = Inr None
   \<or> (\<exists>r. parse_llm_signal_response lib resp = Inr (Some r)
          \<and> 0 \<le> signal_score r \<and> signal_score r \<le> 1)"
proof (cases "parse_llm_signal_response lib resp")
  case (Inl e)
  then have "e = OverflowError \<or> (\<exists>s. json_loads lib s = Inl e)"
    by (auto simp: parse_llm_signal_response_def split: option.splits if_splits sum.splits
        dest: normalize_payload_error extract_json_error)
  with Inl show ?thesis by auto
next
  case (Inr v)
  show ?thesis
  proof (cases v)
    case None
    with Inr show ?thesis by simp
  next
    case (Some r)
    with Inr have "\<exists>n. LLMSignalResponse n = Some r"
      by (auto simp: parse_llm_signal_response_def split: option.splits if_splits sum.splits)
    with Inr Some show ?thesis by (auto dest: LLMSignalResponse_range)
  qed
qed

lemma score_text_llm_outcomes:
  "fst (score_text_llm lib text_body m sent) = Inl OverflowError
   \<or> (\<exists>e s. json_loads lib s = Inl e \<and> fst (score_text_llm lib text_body m sent) = Inl e)
   \<or> (\<exists>r. fst (score_text_llm lib text_body m sent) = Inr r
          \<and> 0 \<le> signal_score r \<and> signal_score r \<le> 1)"
proof (cases "text_body")
  case None
  then show ?thesis using score_text_range [of lib None]
    by (simp add: score_text_llm_def)
next
  case (Some t)
  show ?thesis
  proof (cases "t = [] \<or> strip lib t = []")
    case True
    then show ?thesis using Some score_text_range [of lib "Some t"]
      by (auto simp: score_text_llm_def)
  next
    case False
    define resp where "resp =
      (case call_llm lib (SIGNAL_PROMPT
              (if m < int (length (strip lib t)) then slice_to m (strip lib t) @ py ''...''
               else strip lib t)) of
         None \<Rightarrow> [] | Some resp \<Rightarrow> resp)"
    have e: "fst (score_text_llm lib (Some t) m sent) =
          (case parse_llm_signal_response lib resp of
             Inl e \<Rightarrow> Inl e
           | Inr (Some parsed) \<Rightarrow> Inr parsed
           | Inr None \<Rightarrow> Inr (score_text lib (Some t)))"
      using False by (simp add: score_text_llm_def Let_def resp_def)
    from parse_llm_signal_response_cases [of lib resp] show ?thesis
      unfolding Some e using score_text_range [of lib "Some t"] by auto
  qed
qed

lemma score_text_llm_fallback:
  assumes "\<And>prompt. parse_llm_signal_response lib
                (case call_llm lib prompt of None \<Rightarrow> [] | Some resp \<Rightarrow> resp) = Inr None"
  shows "fst (score_text_llm lib text_body m sent) = Inr (score_text lib text_body)"
  by (simp add: score_text_llm_def Let_def assms split: option.splits)

lemma parse_not_json:
  "extract_json lib resp = Inr None \<or> extract_json lib resp = Inr (Some []) \<Longrightarrow>
   parse_llm_signal_response lib resp = Inr None"
  by (auto simp: parse_llm_signal_response_def)

text \<open>
  An exception of \<open>json.loads\<close> other than \<open>JSONDecodeError\<close> leaves
  \<open>parse_llm_signal_response\<close>: on a reply that is one object in braces, without
  backquotes, what \<open>json.loads\<close> raises is what the function raises.
\<close>

lemma parse_json_raises:
  assumes "s = 123 # body @ [125]" and "96 \<notin> set body"
    and "\<not> str_isspace lib 123" and "\<not> str_isspace lib 125"
    and "json_loads lib s = Inl e"
  shows "parse_llm_signal_response lib s = Inl e"
  by (simp add: parse_llm_signal_response_def extract_json_plain [OF assms(1-4)] assms(5))

lemma provider_failure_falls_back:
  "call_llm lib = (\<lambda>prompt. None) \<Longrightarrow>
   fst (score_text_llm lib text_body m sent) = Inr (score_text lib text_body)"
  by (rule score_text_llm_fallback) (simp add: parse_empty)

lemma malformed_json_falls_back:
  "json_loads lib = (\<lambda>s. Inr None) \<Longrightarrow>
   fst (score_text_llm lib text_body m sent) = Inr (score_text lib text_body)"
proof (rule score_text_llm_fallback)
  fix prompt
  assume j: "json_loads lib = (\<lambda>s. Inr None)"
  have "extract_json lib resp = Inr None" for resp
    by (simp add: extract_json_def Let_def j split: option.splits)
  then show "parse_llm_signal_response lib
                (case call_llm lib prompt of None \<Rightarrow> [] | Some resp \<Rightarrow> resp) = Inr None"
    by (simp add: parse_not_json)
qed

text \<open>
  C4. \<open>score_text_llm\<close> is meant to return RuleScorer's result whenever the reply
  cannot be used, and never to raise. On the reply whose \<open>signal_score\<close> is an integer
  of 401 digits it raises \<open>OverflowError\<close>: \<open>float(signal_score)\<close> in
  \<open>_normalize_payload\<close> is guarded by \<open>except (TypeError, ValueError)\<close> only, and
  nothing above it catches the exception.
\<close>

theorem score_text_llm_overflow:
  "score_text_llm overflow_lib (Some (py ''I went for a walk today'')) 1000 [] =
     (Inl OverflowError, [SIGNAL_PROMPT (py ''I went for a walk today'')])"
proof -
  have c: "call_llm overflow_lib (SIGNAL_PROMPT (py ''I went for a walk today'')) =
           Some overflow_reply"
    by (simp add: overflow_lib_def)
  have n: "py ''I went for a walk today'' \<noteq> []" "length (py ''I went for a walk today'') = 23"
    by (simp_all add: py_def)
  show ?thesis
    using n by (simp add: score_text_llm_def Let_def strip_walk c overflow_parse)
qed

section \<open>Properties of LLMSignalClassifier: \<open>_normalize_payload\<close>\<close>

text \<open>
  Where \<open>float(signal_score)\<close> raises \<open>TypeError\<close> or \<open>ValueError\<close> (the value
  is missing or \<open>null\<close>, a list, an object, or a string that \<open>float\<close> does not
  parse), and where it returns a float below 0 or above 1, the score of the result is
  \<open>score_from_flags\<close> of the coerced flags.
\<close>

lemma normalize_payload_score_replaced:
  assumes "py_float lib (dict_get data (py ''signal_score'')) = Inl TypeError
       \<or> py_float lib (dict_get data (py ''signal_score'')) = Inl ValueError
       \<or> (\<exists>f. py_float lib (dict_get data (py ''signal_score'')) = Inr f
              \<and> (float_lt f (Fin 0) \<or> float_lt (Fin 1) f))"
  shows "\<exists>n. normalize_payload lib data = Inr n
            \<and> n_signal_score n =
                Fin (score_from_flags
                       (coerce_bool lib (dict_get data (py ''is_question'')))
                       (coerce_bool lib (dict_get data (py ''asks_recommendation'')))
                       (coerce_bool lib (dict_get data (py ''mentions_cost'')))
                       (coerce_bool lib (dict_get data (py ''mentions_platform''))))"
  using assms by (auto simp: normalize_payload_def Let_def)

text \<open>
  What \<open>float\<close> converts to a float from 0 to 1 is kept as the score: a JSON number,
  and also \<open>true\<close> and \<open>false\<close> (1.0 and 0.0, \<open>bool\<close> being a subtype of
  \<open>int\<close>) and a string that \<open>float\<close> parses.
\<close>

lemma float_in_range:
  "float_le (Fin 0) f \<Longrightarrow> float_le f (Fin 1) \<Longrightarrow>
   \<not> float_lt f (Fin 0) \<and> \<not> float_lt (Fin 1) f"
  by (cases f) (auto simp: float_le_def)

lemma normalize_payload_score_kept:
  assumes "py_float lib (dict_get data (py ''signal_score'')) = Inr f"
    and "float_le (Fin 0) f" and "float_le f (Fin 1)"
  shows "\<exists>n. normalize_payload lib data = Inr n \<and> n_signal_score n = f"
  using assms(1) float_in_range [OF assms(2,3)]
  by (simp add: normalize_payload_def Let_def)

lemma normalize_payload_true_score:
  "\<exists>n. normalize_payload lib [(py ''signal_score'', JBool True)] = Inr n
        \<and> n_signal_score n = Fin 1"
  by (rule normalize_payload_score_kept) (simp_all add: dict_get_def float_le_def)

lemma normalize_payload_numeric_string:
  assumes "float_str lib s = Some (Fin (5 / 10))"
  shows "\<exists>n. normalize_payload lib [(py ''signal_score'', JStr s)] = Inr n
        \<and> n_signal_score n = Fin (5 / 10)"
  by (rule normalize_payload_score_kept) (simp_all add: dict_get_def float_le_def assms)

text \<open>
  Whenever \<open>_normalize_payload\<close> returns and \<open>detected_keywords\<close> is absent, an
  empty list or an empty string, the keywords are those of \<open>_keywords_from_flags\<close>:
  question, recommendation, cost, platform, in this order, for the flags that are true.
\<close>

lemma normalize_payload_keywords_synthesized:
  assumes "normalize_payload lib data = Inr m"
    and "map_of data (py ''detected_keywords'') = None
          \<or> map_of data (py ''detected_keywords'') = Some (JArr [])
          \<or> map_of data (py ''detected_keywords'') = Some (JStr [])"
  shows "n_detected_keywords m =
           keywords_from_flags (n_is_question m) (n_asks_recommendation m)
             (n_mentions_cost m) (n_mentions_platform m)"
proof -
  from assms(2) have k: "(case (case map_of data (py ''detected_keywords'') of
                     None \<Rightarrow> JArr []
                   | Some v \<Rightarrow> v) of
               JStr s \<Rightarrow>
                 map JStr
                   (filter (\<lambda>k. k \<noteq> [])
                      (map (strip lib) (split_on (\<lambda>ch. ch = 44 \<or> ch = 10) s)))
             | JArr xs \<Rightarrow> xs
             | _ \<Rightarrow> []) = []"
    by (auto simp: strip_def)
  from assms(1) show ?thesis
    unfolding normalize_payload_def Let_def k
    by (auto split: sum.splits py_error.splits)
qed

lemma keywords_from_flags_order:
  "keywords_from_flags True True True True =
     [py ''question'', py ''recommendation'', py ''cost'', py ''platform'']"
  by (simp add: keywords_from_flags_def)

text \<open>
  \<open>score_from_flags\<close> has the weights of RuleScorer: the score of \<open>score_text\<close> is
  \<open>score_from_flags\<close> of its own flags.
\<close>

lemma score_text_score_from_flags:
  "signal_score (score_text lib text_body) =
     score_from_flags (is_question (score_text lib text_body))
       (asks_recommendation (score_text lib text_body))
       (mentions_cost (score_text lib text_body))
       (mentions_platform (score_text lib text_body))"
proof -
  from score_text_shape [of lib text_body] obtain q r c p d where
    "score_text lib text_body =
     \<lparr>is_question = q, asks_recommendation = r, mentions_cost = c,
      mentions_platform = p,
      signal_score =
        min 1 (0 + (if q then 35 / 100 else 0) + (if r then 35 / 100 else 0) +
               (if c then 2 / 10 else 0) + (if p then 2 / 10 else 0)),
      detected_keywords = d\<rparr>"
    by blast
  then show ?thesis by (simp add: score_from_flags_def)
qed

text \<open>The example of the spec: a score of 5 is replaced by the score of the flags.\<close>

lemma normalize_payload_five:
  "normalize_payload lib [(py ''is_question'', JBool True), (py ''signal_score'', JInt 5)] =
     Inr \<lparr>n_is_question = True, n_asks_recommendation = False,
          n_mentions_cost = False, n_mentions_platform = False,
          n_signal_score = Fin (35 / 100), n_detected_keywords = [py ''question'']\<rparr>"
  by (simp add: normalize_payload_def dict_get_def Let_def keywords_from_flags_def
      score_from_flags_def py_def float_overflows_def)

text \<open>
  The constraints \<open>ge\<close> and \<open>le\<close> of \<open>LLMSignalResponse\<close> reject a result whose
  score is \<open>NaN\<close>, so that the flags of such a reply are not returned either.
\<close>

lemma LLMSignalResponse_nan: "n_signal_score n = NaN \<Longrightarrow> LLMSignalResponse n = None"
  by (simp add: LLMSignalResponse_def)

text \<open>
  C5. A \<open>signal_score\<close> that is missing, not a number, or not between 0 and 1 is to
  be replaced by the score recomputed from the coerced flags with RuleScorer's weights.
  For the reply that sets \<open>is_question\<close> and whose \<open>signal_score\<close> is \<open>NaN\<close>,
  \<open>_normalize_payload\<close> keeps the \<open>NaN\<close>: in
  \<open>signal_score < 0 or signal_score > 1\<close> both comparisons are false for it. The
  score of the result is not the recomputed one, which is 0.35 for the one flag set,
  and it is not between 0 and 1.
\<close>

theorem normalize_payload_keeps_nan:
  "normalize_payload lib nan_payload =
     Inr \<lparr>n_is_question = True, n_asks_recommendation = False,
          n_mentions_cost = False, n_mentions_platform = False,
          n_signal_score = NaN, n_detected_keywords = [py ''question'']\<rparr>
   \<and> score_from_flags True False False False = 35 / 100
   \<and> NaN \<noteq> Fin (score_from_flags True False False False)
   \<and> \<not> float_le (Fin 0) NaN
   \<and> \<not> float_le NaN (Fin 1)"
  by (simp add: normalize_payload_def nan_payload_def dict_get_def Let_def
      keywords_from_flags_def score_from_flags_def py_def float_le_def)

section \<open>Properties of HybridDecisionPolicy\<close>

lemma score_text_llm_effect:
  "snd (score_text_llm lib text_body m sent) \<noteq> sent \<longleftrightarrow>
     (case text_body of None \<Rightarrow> False | Some t \<Rightarrow> t \<noteq> [] \<and> strip lib t \<noteq> [])"
  by (simp add: score_text_llm_def Let_def split: option.split)

text \<open>
  C3. With the method \<open>hybrid\<close>, \<open>_score_text_with_method\<close> computes the rule result
  first. If its score reaches \<open>hybrid_min_score\<close>, or \<open>is_question\<close> or
  \<open>asks_recommendation\<close> is set, it returns the rule result and the list of prompts
  sent to the provider is unchanged; otherwise it returns what \<open>score_text_llm\<close>
  returns for the same text, which is the rule result again, with no prompt sent, when
  the text is \<open>None\<close>, empty or blank. A prompt is sent to the provider exactly when
  the condition fails and the text is not \<open>None\<close>, empty or blank.
\<close>

theorem hybrid_policy:
  "(float_le thr (Fin (signal_score (score_text lib text_body)))
      \<or> is_question (score_text lib text_body)
      \<or> asks_recommendation (score_text lib text_body)
    \<longrightarrow> score_text_with_method lib text_body ''hybrid'' thr sent =
          (Inr (score_text lib text_body), sent))
   \<and> (\<not> (float_le thr (Fin (signal_score (score_text lib text_body)))
          \<or> is_question (score_text lib text_body)
          \<or> asks_recommendation (score_text lib text_body))
      \<longrightarrow> score_text_with_method lib text_body ''hybrid'' thr sent =
            score_text_llm lib text_body 1000 sent)
   \<and> ((case text_body of None \<Rightarrow> True | Some t \<Rightarrow> t = [] \<or> strip lib t = [])
      \<longrightarrow> score_text_with_method lib text_body ''hybrid'' thr sent =
            (Inr (score_text lib text_body), sent))
   \<and> (snd (score_text_with_method lib text_body ''hybrid'' thr sent) \<noteq> sent \<longleftrightarrow>
        \<not> (float_le thr (Fin (signal_score (score_text lib text_body)))
           \<or> is_question (score_text lib text_body)
           \<or> asks_recommendation (score_text lib text_body))
        \<and> (case text_body of None \<Rightarrow> False | Some t \<Rightarrow> t \<noteq> [] \<and> strip lib t \<noteq> []))"
proof (intro conjI impI)
  assume "float_le thr (Fin (signal_score (score_text lib text_body)))
      \<or> is_question (score_text lib text_body)
      \<or> asks_recommendation (score_text lib text_body)"
  then show "score_text_with_method lib text_body ''hybrid'' thr sent =
          (Inr (score_text lib text_body), sent)"
    by (simp add: score_text_with_method_def Let_def)
next
  assume "\<not> (float_le thr (Fin (signal_score (score_text lib text_body)))
          \<or> is_question (score_text lib text_body)
          \<or> asks_recommendation (score_text lib text_body))"
  then show "score_text_with_method lib text_body ''hybrid'' thr sent =
            score_text_llm lib text_body 1000 sent"
    by (simp add: score_text_with_method_def Let_def)
next
  assume "case text_body of None \<Rightarrow> True | Some t \<Rightarrow> t = [] \<or> strip lib t = []"
  then have "score_text_llm lib text_body 1000 sent = (Inr (score_text lib text_body), sent)"
    by (auto simp: score_text_llm_def split: option.splits)
  then show "score_text_with_method lib text_body ''hybrid'' thr sent =
            (Inr (score_text lib text_body), sent)"
    by (simp add: score_text_with_method_def Let_def)
next
  show "snd (score_text_with_method lib text_body ''hybrid'' thr sent) \<noteq> sent \<longleftrightarrow>
        \<not> (float_le thr (Fin (signal_score (score_text lib text_body)))
           \<or> is_question (score_text lib text_body)
           \<or> asks_recommendation (score_text lib text_body))
        \<and> (case text_body of None \<Rightarrow> False | Some t \<Rightarrow> t \<noteq> [] \<and> strip lib t \<noteq> [])"
  proof (cases "float_le thr (Fin (signal_score (score_text lib text_body)))
           \<or> is_question (score_text lib text_body)
           \<or> asks_recommendation (score_text lib text_body)")
    case True
    then show ?thesis by (simp add: score_text_with_method_def Let_def)
  next
    case False
    then have "score_text_with_method lib text_body ''hybrid'' thr sent =
            score_text_llm lib text_body 1000 sent"
      by (simp add: score_text_with_method_def Let_def)
    with False show ?thesis
      using score_text_llm_effect [of lib text_body 1000 sent] by simp
  qed
qed


lemma score_text_walk:
  "score_text ascii_lib (Some (py ''I went for a walk today'')) = no_signal"
  by code_simp

lemma strip_walk_ascii:
  "strip ascii_lib (py ''I went for a walk today'') = py ''I went for a walk today''"
  by (simp add: strip_def py_def ascii_lib_def)

lemma score_text_llm_walk:
  "score_text_llm ascii_lib (Some (py ''I went for a walk today'')) 1000 sent =
     (Inr no_signal, sent @ [SIGNAL_PROMPT (py ''I went for a walk today'')])"
proof -
  have n: "py ''I went for a walk today'' \<noteq> []"
    "length (py ''I went for a walk today'') = 23"
    by (simp_all add: py_def)
  have c: "call_llm ascii_lib p = None" for p
    by (simp add: ascii_lib_def)
  show ?thesis
    using n
    by (simp add: score_text_llm_def Let_def strip_walk_ascii c parse_empty score_text_walk)
qed

lemma broker_question_is_question:
  "is_question (score_text ascii_lib (Some broker_question))"
proof (rule is_question_mark)
  show "broker_question \<noteq> []"
    by (simp add: broker_question_def py_def)
  show "63 \<in> set (strip ascii_lib broker_question)"
    by (simp add: broker_question_def strip_def py_def ascii_lib_def)
qed

lemma strip_blanks: "strip ascii_lib [32, 9] = []"
  by (simp add: strip_def ascii_lib_def)

lemma score_text_blanks: "score_text ascii_lib (Some [32, 9]) = no_signal"
  using strip_blanks by (rule score_text_stripped_empty)

theorem hybrid_policy_witness:
  "score_text_with_method ascii_lib (Some broker_question) ''hybrid'' (Fin (2 / 10)) [] =
     (Inr (score_text ascii_lib (Some broker_question)), [])
   \<and> score_text_with_method ascii_lib (Some (py ''I went for a walk today'')) ''hybrid''
       (Fin (9 / 10)) [] =
     (Inr no_signal, [SIGNAL_PROMPT (py ''I went for a walk today'')])
   \<and> score_text_with_method ascii_lib (Some [32, 9]) ''hybrid'' (Fin (2 / 10)) [] =
     (Inr no_signal, [])"
proof -
  let ?walk = "py ''I went for a walk today''"
  have c1: "float_le (Fin (2 / 10))
              (Fin (signal_score (score_text ascii_lib (Some broker_question))))
            \<or> is_question (score_text ascii_lib (Some broker_question))
            \<or> asks_recommendation (score_text ascii_lib (Some broker_question))"
    using broker_question_is_question by simp
  have 1: "score_text_with_method ascii_lib (Some broker_question) ''hybrid''
             (Fin (2 / 10)) [] =
           (Inr (score_text ascii_lib (Some broker_question)), [])"
    by (rule hybrid_policy [of "Fin (2 / 10)" ascii_lib "Some broker_question" "[]",
          THEN conjunct1, THEN mp, OF c1])
  have c2: "\<not> (float_le (Fin (9 / 10)) (Fin (signal_score (score_text ascii_lib (Some ?walk))))
               \<or> is_question (score_text ascii_lib (Some ?walk))
               \<or> asks_recommendation (score_text ascii_lib (Some ?walk)))"
    by (simp add: score_text_walk no_signal_def float_le_def)
  have 2: "score_text_with_method ascii_lib (Some ?walk) ''hybrid'' (Fin (9 / 10)) [] =
           score_text_llm ascii_lib (Some ?walk) 1000 []"
    by (rule hybrid_policy [of "Fin (9 / 10)" ascii_lib "Some ?walk" "[]",
          THEN conjunct2, THEN conjunct1, THEN mp, OF c2])
  have c3: "case Some [32, 9] of None \<Rightarrow> True
            | Some t \<Rightarrow> t = [] \<or> strip ascii_lib t = []"
    by (simp add: strip_blanks)
  have 3: "score_text_with_method ascii_lib (Some [32, 9]) ''hybrid'' (Fin (2 / 10)) [] =
           (Inr (score_text ascii_lib (Some [32, 9])), [])"
    by (rule hybrid_policy [of "Fin (2 / 10)" ascii_lib "Some [32, 9]" "[]",
          THEN conjunct2, THEN conjunct2, THEN conjunct1, THEN mp, OF c3])
  show ?thesis
    unfolding 1 2 3 by (simp add: score_text_llm_walk score_text_blanks)
qed

text \<open>
  The rule result also comes back where the condition fails. For the text \<open>None\<close>
  and the threshold 0.2 the score 0 is below the threshold and no flag is set, and the
  result is the rule result with no prompt sent. For a text without any signal and the
  threshold 0.9, with a provider that does not answer, the prompt is sent and the result
  is the rule result that \<open>score_text_llm\<close> falls back to.
\<close>

theorem hybrid_policy_converse_counterexample:
  "score_text_with_method ascii_lib None ''hybrid'' (Fin (2 / 10)) [] =
     (Inr (score_text ascii_lib None), [])
   \<and> \<not> float_le (Fin (2 / 10)) (Fin (signal_score (score_text ascii_lib None)))
   \<and> \<not> is_question (score_text ascii_lib None)
   \<and> \<not> asks_recommendation (score_text ascii_lib None)
   \<and> fst (score_text_with_method ascii_lib (Some (py ''I went for a walk today''))
            ''hybrid'' (Fin (9 / 10)) []) =
       Inr (score_text ascii_lib (Some (py ''I went for a walk today'')))
   \<and> \<not> float_le (Fin (9 / 10))
         (Fin (signal_score (score_text ascii_lib (Some (py ''I went for a walk today'')))))
   \<and> \<not> is_question (score_text ascii_lib (Some (py ''I went for a walk today'')))
   \<and> \<not> asks_recommendation (score_text ascii_lib (Some (py ''I went for a walk today'')))"
proof -
  have n: "score_text ascii_lib None = no_signal"
    by (simp add: score_text_def)
  have 1: "score_text_with_method ascii_lib None ''hybrid'' (Fin (2 / 10)) [] =
             (Inr no_signal, [])"
    by (simp add: score_text_with_method_def n score_text_llm_def no_signal_def float_le_def)
  have 2: "fst (score_text_with_method ascii_lib (Some (py ''I went for a walk today''))
                  ''hybrid'' (Fin (9 / 10)) []) = Inr no_signal"
    by (simp add: score_text_with_method_def score_text_walk score_text_llm_walk float_le_def
        no_signal_def)
  show ?thesis
    unfolding 1 2 n score_text_walk by (simp add: no_signal_def float_le_def)
qed

section \<open>Properties of SignalStore\<close>



section \<open>Properties of TrendAggregator\<close>

lemma joined_rows_stats [simp]:
  "joined_rows (conn\<lparr>weekly_theme_stats := x\<rparr>) now n = joined_rows conn now n"
  by (simp add: joined_rows_def cong: if_cong option.case_cong)

lemma weekly_docs_stats [simp]:
  "weekly_docs (conn\<lparr>weekly_theme_stats := x\<rparr>) now n = weekly_docs conn now n"
  by (simp add: weekly_docs_def)

lemma demo_joined:
  "joined_rows demo_db (12 * usec_per_day) 12 =
     [(4, 1, Some ''isa'', Some 4, Some (55 / 100)),
      (4, 1, Some ''isa'', None, None),
      (11, 1, Some ''isa'', Some 2, None)]"
  by (simp add: joined_rows_def demo_db_def demo_post_def demo_signal_def usec_per_day_def
      date_trunc_week_def)

lemma non_null_simps:
  "non_null [] = []"
  "non_null (None # xs) = non_null xs"
  "non_null (Some v # xs) = v # non_null xs"
  by (simp_all add: non_null_def)

lemma demo_weekly_docs:
  "weekly_docs demo_db (12 * usec_per_day) 12 =
     [\<lparr>wd_week_start = 4, wd_cluster_id = 1, wd_cluster_label = Some ''isa'',
       wd_doc_count = 2, wd_signal_sum = 55 / 100, wd_avg_score = Some 4\<rparr>,
      \<lparr>wd_week_start = 11, wd_cluster_id = 1, wd_cluster_label = Some ''isa'',
       wd_doc_count = 1, wd_signal_sum = 0, wd_avg_score = Some 2\<rparr>]"
  unfolding weekly_docs_def demo_joined
  by (simp add: sql_sum_def sql_avg_def non_null_simps coalesce_def Let_def)

lemma demo_compute:
  "compute_weekly_trends demo_db (12 * usec_per_day) 12 =
     (demo_db\<lparr>weekly_theme_stats := demo_stats\<rparr>,
      \<lparr>weeks_computed = 2, rows_inserted = 2\<rparr>)"
  unfolding compute_weekly_trends_def Let_def weekly_docs_stats demo_weekly_docs
  by (simp add: with_prior_def growth_pct_of_def round_numeric_def demo_stats_def)


text \<open>
  C7. A second run of \<open>compute_weekly_trends\<close> at the same reference time and with the
  same lookback, on the store the first run left, returns the same store and the same
  counts: the query reads no row of \<open>weekly_theme_stats\<close>, and the table is emptied
  before it is filled.
\<close>

theorem compute_weekly_trends_idempotent:
  "compute_weekly_trends (fst (compute_weekly_trends conn now lookback_weeks)) now
     lookback_weeks =
   compute_weekly_trends conn now lookback_weeks"
  by (simp add: compute_weekly_trends_def Let_def)


theorem compute_weekly_trends_idempotent_witness:
  "compute_weekly_trends (fst (compute_weekly_trends demo_db (12 * usec_per_day) 12))
     (12 * usec_per_day) 12 =
   (demo_db\<lparr>weekly_theme_stats := demo_stats\<rparr>, \<lparr>weeks_computed = 2, rows_inserted = 2\<rparr>)"
  using compute_weekly_trends_idempotent [of demo_db "12 * usec_per_day" 12]
  by (simp add: demo_compute)

lemma concat_map_filter_irrelevant:
  "(\<And>x. x \<in> set xs \<Longrightarrow> \<not> P x \<Longrightarrow> f x = []) \<Longrightarrow>
   concat (map f (filter P xs)) = concat (map f xs)"
  by (induction xs) auto

lemma joined_rows_posts_only:
  "joined_rows (posts_only conn) now n = joined_rows conn now n"
proof -
  have "joined_rows (posts_only conn) now n =
        concat (map (\<lambda>cm.
       if cm_content_type cm \<noteq> ''post'' then []
       else (case posts conn (cm_content_id cm) of
               None \<Rightarrow> []
             | Some p \<Rightarrow>
                 (case clusters conn (cm_cluster_id cm) of
                    None \<Rightarrow> []
                  | Some c_label \<Rightarrow>
                      (case p_created_utc p of
                         None \<Rightarrow> []
                       | Some created \<Rightarrow>
                           if now - n * 7 * usec_per_day \<le> created
                              \<and> 0 \<le> cm_cluster_id cm
                           then [(date_trunc_week created, cm_cluster_id cm, c_label,
                                  p_score p,
                                  map_option s_signal_score
                                    (signals conn (''post'', cm_content_id cm)))]
                           else []))))
         (filter (\<lambda>m. cm_content_type m = ''post'') (cluster_membership conn)))"
    by (simp add: joined_rows_def posts_only_def cong: if_cong option.case_cong)
  also have "\<dots> = joined_rows conn now n"
    unfolding joined_rows_def by (rule concat_map_filter_irrelevant) simp
  finally show ?thesis .
qed

text \<open>
  C10. Only memberships of type \<open>post\<close> reach the aggregation: with every other
  membership row and every signal of another content type removed from the store
  (\<open>posts_only\<close>), \<open>compute_weekly_trends\<close> writes the same table and returns the same
  counts. (The comments table is not read at all: the model of the query has no access
  to it.)
\<close>

theorem trends_ignore_comments:
  "weekly_theme_stats (fst (compute_weekly_trends (posts_only conn) now lookback_weeks)) =
   weekly_theme_stats (fst (compute_weekly_trends conn now lookback_weeks))
   \<and> snd (compute_weekly_trends (posts_only conn) now lookback_weeks) =
     snd (compute_weekly_trends conn now lookback_weeks)"
proof -
  have "joined_rows (posts_only conn\<lparr>weekly_theme_stats := []\<rparr>) now lookback_weeks =
        joined_rows (conn\<lparr>weekly_theme_stats := []\<rparr>) now lookback_weeks"
    by (simp add: joined_rows_posts_only)
  then have "weekly_docs (posts_only conn\<lparr>weekly_theme_stats := []\<rparr>) now lookback_weeks =
        weekly_docs (conn\<lparr>weekly_theme_stats := []\<rparr>) now lookback_weeks"
    unfolding weekly_docs_def by simp
  then show ?thesis
    by (simp add: compute_weekly_trends_def Let_def)
qed


theorem trends_ignore_comments_witness:
  "cluster_membership (posts_only demo_db) =
     [\<lparr>cm_content_type = ''post'', cm_content_id = ''a'', cm_cluster_id = 1\<rparr>,
      \<lparr>cm_content_type = ''post'', cm_content_id = ''b'', cm_cluster_id = 1\<rparr>,
      \<lparr>cm_content_type = ''post'', cm_content_id = ''c'', cm_cluster_id = 1\<rparr>]
   \<and> weekly_theme_stats
       (fst (compute_weekly_trends (posts_only demo_db) (12 * usec_per_day) 12)) =
     demo_stats
   \<and> snd (compute_weekly_trends (posts_only demo_db) (12 * usec_per_day) 12) =
     \<lparr>weeks_computed = 2, rows_inserted = 2\<rparr>"
  using trends_ignore_comments [of demo_db "12 * usec_per_day" 12]
  by (simp add: demo_compute) (simp add: posts_only_def demo_db_def)

lemma lag_doc_count_fst: "map fst (lag_doc_count prev xs) = xs"
  by (induction xs arbitrary: prev) auto

lemma lag_doc_count_prior:
  assumes "sorted_wrt (\<lambda>a b. wd_week_start a < wd_week_start b) xs"
    and "(r, p) \<in> set (lag_doc_count prev xs)"
  shows "r \<in> set xs \<and>
         (if \<exists>q\<in>set xs. wd_week_start q < wd_week_start r
          then \<exists>q\<in>set xs. wd_week_start q < wd_week_start r
                 \<and> (\<forall>q'\<in>set xs. wd_week_start q' < wd_week_start r
                        \<longrightarrow> wd_week_start q' \<le> wd_week_start q)
                 \<and> p = Some (wd_doc_count q)
          else p = prev)"
  using assms
proof (induction xs arbitrary: prev)
  case Nil
  then show ?case by simp
next
  case (Cons x xs)
  from Cons.prems(1) have later: "\<forall>y\<in>set xs. wd_week_start x < wd_week_start y"
    and sorted: "sorted_wrt (\<lambda>a b. wd_week_start a < wd_week_start b) xs"
    by simp_all
  from Cons.prems(2) consider (head) "r = x" "p = prev"
    | (tail) "(r, p) \<in> set (lag_doc_count (Some (wd_doc_count x)) xs)"
    by auto
  then show ?case
  proof cases
    case head
    have "\<not> (\<exists>q\<in>set (x # xs). wd_week_start q < wd_week_start r)"
      using head(1) later by fastforce
    then show ?thesis using head by simp
  next
    case tail
    note ih = Cons.IH [OF sorted tail]
    then have r_in: "r \<in> set xs" by simp
    then have x_lt: "wd_week_start x < wd_week_start r" using later by simp
    show ?thesis
    proof (cases "\<exists>q\<in>set xs. wd_week_start q < wd_week_start r")
      case True
      with ih obtain q where q: "q \<in> set xs" "wd_week_start q < wd_week_start r"
        "\<forall>q'\<in>set xs. wd_week_start q' < wd_week_start r
            \<longrightarrow> wd_week_start q' \<le> wd_week_start q"
        "p = Some (wd_doc_count q)"
        by auto
      have "wd_week_start x \<le> wd_week_start q" using later q(1) by fastforce
      with q x_lt r_in show ?thesis
        by auto
    next
      case False
      with ih have p: "p = Some (wd_doc_count x)" by simp
      have "\<forall>q'\<in>set (x # xs). wd_week_start q' < wd_week_start r
            \<longrightarrow> wd_week_start q' \<le> wd_week_start x"
        using False by auto
      with p x_lt r_in show ?thesis
        by auto
    qed
  qed
qed


lemma partition_sorted:
  assumes "distinct (map (\<lambda>r. (wd_week_start r, wd_cluster_id r)) wd)"
  shows "sorted_wrt (\<lambda>a b. wd_week_start a < wd_week_start b)
           (sort_key wd_week_start (filter (\<lambda>r. wd_cluster_id r = c) wd))"
proof -
  let ?xs = "filter (\<lambda>r. wd_cluster_id r = c) wd"
  have "distinct (map (\<lambda>r. (wd_week_start r, wd_cluster_id r)) ?xs)"
    using assms by (rule distinct_map_filter)
  then have dx: "distinct ?xs"
    and inj: "inj_on (\<lambda>r. (wd_week_start r, wd_cluster_id r)) (set ?xs)"
    by (simp_all add: distinct_map)
  have "inj_on wd_week_start (set ?xs)"
  proof (rule inj_onI)
    fix a b
    assume "a \<in> set ?xs" "b \<in> set ?xs" "wd_week_start a = wd_week_start b"
    then show "a = b" using inj by (auto dest: inj_onD)
  qed
  then have "distinct (map wd_week_start (sort_key wd_week_start ?xs))"
    using dx by (simp add: distinct_map)
  moreover have "sorted (map wd_week_start (sort_key wd_week_start ?xs))"
    by (rule sorted_sort_key)
  ultimately have "sorted_wrt (<) (map wd_week_start (sort_key wd_week_start ?xs))"
    by (simp add: strict_sorted_iff)
  then show ?thesis
    by (simp add: sorted_wrt_map)
qed

lemma with_prior_prior:
  assumes "distinct (map (\<lambda>r. (wd_week_start r, wd_cluster_id r)) wd)"
    and "(r, p) \<in> set (with_prior wd)"
  shows "r \<in> set wd \<and>
         (if \<exists>q\<in>set wd. wd_cluster_id q = wd_cluster_id r
                \<and> wd_week_start q < wd_week_start r
          then \<exists>q\<in>set wd. wd_cluster_id q = wd_cluster_id r
                 \<and> wd_week_start q < wd_week_start r
                 \<and> (\<forall>q'\<in>set wd. wd_cluster_id q' = wd_cluster_id r
                        \<and> wd_week_start q' < wd_week_start r
                        \<longrightarrow> wd_week_start q' \<le> wd_week_start q)
                 \<and> p = Some (wd_doc_count q)
          else p = None)"
proof -
  from assms(2) obtain c where
    mem: "(r, p) \<in> set (lag_doc_count None
             (sort_key wd_week_start (filter (\<lambda>r. wd_cluster_id r = c) wd)))"
    by (auto simp: with_prior_def)
  let ?xs = "sort_key wd_week_start (filter (\<lambda>r. wd_cluster_id r = c) wd)"
  note l = lag_doc_count_prior [OF partition_sorted [OF assms(1)] mem]
  have xs: "set ?xs = {q \<in> set wd. wd_cluster_id q = c}" by auto
  from l have r: "r \<in> set wd" "wd_cluster_id r = c" by (simp_all add: xs)
  have ex: "(\<exists>q\<in>set ?xs. wd_week_start q < wd_week_start r) \<longleftrightarrow>
        (\<exists>q\<in>set wd. wd_cluster_id q = wd_cluster_id r \<and> wd_week_start q < wd_week_start r)"
    unfolding xs r(2) by auto
  show ?thesis
  proof (cases "\<exists>q\<in>set wd. wd_cluster_id q = wd_cluster_id r
                  \<and> wd_week_start q < wd_week_start r")
    case True
    with l ex obtain q where "q \<in> set ?xs" "wd_week_start q < wd_week_start r"
      "\<forall>q'\<in>set ?xs. wd_week_start q' < wd_week_start r
            \<longrightarrow> wd_week_start q' \<le> wd_week_start q"
      "p = Some (wd_doc_count q)"
      by auto
    then have "q \<in> set wd \<and> wd_cluster_id q = wd_cluster_id r
        \<and> wd_week_start q < wd_week_start r
        \<and> (\<forall>q'\<in>set wd. wd_cluster_id q' = wd_cluster_id r
               \<and> wd_week_start q' < wd_week_start r
               \<longrightarrow> wd_week_start q' \<le> wd_week_start q)
        \<and> p = Some (wd_doc_count q)"
      unfolding xs r(2) by auto
    with True r(1) show ?thesis by auto
  next
    case False
    with l ex have "p = None" by auto
    with False r(1) show ?thesis by auto
  qed
qed

lemma with_prior_fst: "fst ` set (with_prior wd) = set wd"
proof -
  have "fst ` set (lag_doc_count prev xs) = set xs" for prev xs
    using lag_doc_count_fst [of prev xs] by (metis set_map)
  then show ?thesis
    by (auto simp: with_prior_def image_UN)
qed

lemma joined_rows_label:
  "(w, c, l, sc, sg) \<in> set (joined_rows conn now n) \<Longrightarrow> clusters conn c = Some l"
  by (auto simp: joined_rows_def split: if_splits option.splits)

lemma weekly_docs_distinct:
  "distinct (map (\<lambda>r. (wd_week_start r, wd_cluster_id r)) (weekly_docs conn now n))"
proof -
  let ?rows = "joined_rows conn now n"
  let ?keys = "remdups (map (\<lambda>(w, c, l, sc, sg). (w, c, l)) ?rows)"
  have eq: "map (\<lambda>r. (wd_week_start r, wd_cluster_id r)) (weekly_docs conn now n) =
        map (\<lambda>(w, c, l). (w, c)) ?keys"
    by (simp add: weekly_docs_def Let_def case_prod_unfold)
  have "inj_on (\<lambda>(w, c, l). (w, c)) (set ?keys)"
  proof (rule inj_onI)
    fix a b
    assume a: "a \<in> set ?keys" and b: "b \<in> set ?keys"
      and e: "(case a of (w, c, l) \<Rightarrow> (w, c)) = (case b of (w, c, l) \<Rightarrow> (w, c))"
    obtain w c l where a': "a = (w, c, l)" by (cases a)
    obtain w' c' l' where b': "b = (w', c', l')" by (cases b)
    from a a' obtain sc sg where "(w, c, l, sc, sg) \<in> set ?rows" by auto
    then have 1: "clusters conn c = Some l" by (rule joined_rows_label)
    from b b' obtain sc' sg' where "(w', c', l', sc', sg') \<in> set ?rows" by auto
    then have 2: "clusters conn c' = Some l'" by (rule joined_rows_label)
    from e a' b' have "w = w'" "c = c'" by simp_all
    with 1 2 a' b' show "a = b" by simp
  qed
  then have "distinct (map (\<lambda>(w, c, l). (w, c)) ?keys)"
    by (simp add: distinct_map)
  with eq show ?thesis by simp
qed

lemma stats_rows:
  "weekly_theme_stats (fst (compute_weekly_trends conn now n)) =
     map (\<lambda>(wd, prior_count).
            \<lparr>week_start = wd_week_start wd, cluster_id = wd_cluster_id wd,
             cluster_label = wd_cluster_label wd, doc_count = wd_doc_count wd,
             signal_sum = wd_signal_sum wd, avg_score = wd_avg_score wd,
             growth_pct = growth_pct_of (wd_doc_count wd) prior_count,
             computed_at = now\<rparr>)
       (with_prior (weekly_docs conn now n))"
  by (simp add: compute_weekly_trends_def Let_def)

lemma stats_row_of:
  assumes "t \<in> set (weekly_theme_stats (fst (compute_weekly_trends conn now n)))"
  shows "\<exists>w p. (w, p) \<in> set (with_prior (weekly_docs conn now n))
           \<and> week_start t = wd_week_start w \<and> cluster_id t = wd_cluster_id w
           \<and> doc_count t = wd_doc_count w
           \<and> growth_pct t = growth_pct_of (wd_doc_count w) p"
  using assms unfolding stats_rows by fastforce

lemma stats_row_for:
  assumes "w \<in> set (weekly_docs conn now n)"
  shows "\<exists>t\<in>set (weekly_theme_stats (fst (compute_weekly_trends conn now n))).
           week_start t = wd_week_start w \<and> cluster_id t = wd_cluster_id w
           \<and> doc_count t = wd_doc_count w"
proof -
  from assms obtain p where "(w, p) \<in> set (with_prior (weekly_docs conn now n))"
    using with_prior_fst [of "weekly_docs conn now n"] by force
  then show ?thesis
    unfolding stats_rows by force
qed

lemma growth_pct_of_None:
  "growth_pct_of dc p = None \<longleftrightarrow> p = None \<or> p = Some 0"
  by (auto simp: growth_pct_of_def split: option.splits)

lemma growth_example:
  "map (\<lambda>(wd, p). growth_pct_of (wd_doc_count wd) p)
     (with_prior
        [\<lparr>wd_week_start = 4, wd_cluster_id = 1, wd_cluster_label = None,
          wd_doc_count = 10, wd_signal_sum = 0, wd_avg_score = None\<rparr>,
         \<lparr>wd_week_start = 11, wd_cluster_id = 1, wd_cluster_label = None,
          wd_doc_count = 5, wd_signal_sum = 0, wd_avg_score = None\<rparr>,
         \<lparr>wd_week_start = 18, wd_cluster_id = 1, wd_cluster_label = None,
          wd_doc_count = 20, wd_signal_sum = 0, wd_avg_score = None\<rparr>]) =
   [None, Some (- 50), Some 300]"
  by (simp add: with_prior_def growth_pct_of_def round_numeric_def)


text \<open>
  The \<open>INSERT\<close> meets the constraints of the table: no two rows share the primary key
  \<open>(week_start, cluster_id)\<close>, every row's cluster is a row of \<open>clusters\<close> with the
  label that was copied, the noise cluster is absent, and every \<open>doc_count\<close> is at
  least 1. So the statement cannot fail on a constraint, and a preceding week with
  \<open>doc_count\<close> 0 does not occur in what the query computes.
\<close>

lemma with_prior_rows:
  "map fst (with_prior wd) =
     concat (map (\<lambda>c. sort_key wd_week_start (filter (\<lambda>r. wd_cluster_id r = c) wd))
               (remdups (map wd_cluster_id wd)))"
  by (simp add: with_prior_def map_concat comp_def lag_doc_count_fst)

lemma with_prior_keys_distinct:
  assumes d: "distinct (map (\<lambda>r. (wd_week_start r, wd_cluster_id r)) wd)"
  shows "distinct (map (\<lambda>r. (wd_week_start r, wd_cluster_id r)) (map fst (with_prior wd)))"
proof -
  let ?k = "\<lambda>r. (wd_week_start r, wd_cluster_id r)"
  let ?P = "\<lambda>c. sort_key wd_week_start (filter (\<lambda>r. wd_cluster_id r = c) wd)"
  let ?cs = "remdups (map wd_cluster_id wd)"
  have set_P: "set (?P c) = {r \<in> set wd. wd_cluster_id r = c}" for c by auto
  have e: "map ?k (map fst (with_prior wd)) = concat (map (\<lambda>c. map ?k (?P c)) ?cs)"
    unfolding with_prior_rows by (simp add: map_concat comp_def)
  have "distinct (concat (map (\<lambda>c. map ?k (?P c)) ?cs))"
  proof (rule distinct_concat)
    have "inj_on (\<lambda>c. map ?k (?P c)) (set ?cs)"
    proof (rule inj_onI)
      fix c c'
      assume c: "c \<in> set ?cs" and c': "c' \<in> set ?cs"
        and m: "map ?k (?P c) = map ?k (?P c')"
      from c obtain r where r: "r \<in> set wd" "wd_cluster_id r = c" by auto
      then have "r \<in> set (?P c)" by simp
      then have "?k r \<in> ?k ` set (?P c)" by (rule imageI)
      then have "?k r \<in> set (map ?k (?P c))" by (simp only: set_map)
      with m have "?k r \<in> set (map ?k (?P c'))" by simp
      then obtain r' where "r' \<in> set (?P c')" "?k r' = ?k r" by auto
      with r(2) show "c = c'" by auto
    qed
    then show "distinct (map (\<lambda>c. map ?k (?P c)) ?cs)"
      by (simp add: distinct_map)
  next
    fix ys
    assume "ys \<in> set (map (\<lambda>c. map ?k (?P c)) ?cs)"
    then obtain c where ys: "ys = map ?k (?P c)" by auto
    have "distinct (map ?k (filter (\<lambda>r. wd_cluster_id r = c) wd))"
      using d by (rule distinct_map_filter)
    then have "distinct (filter (\<lambda>r. wd_cluster_id r = c) wd)"
      and "inj_on ?k (set (filter (\<lambda>r. wd_cluster_id r = c) wd))"
      by (simp_all add: distinct_map)
    then have "distinct (map ?k (?P c))"
      by (simp add: distinct_map)
    with ys show "distinct ys" by simp
  next
    fix ys zs
    assume "ys \<in> set (map (\<lambda>c. map ?k (?P c)) ?cs)"
      and "zs \<in> set (map (\<lambda>c. map ?k (?P c)) ?cs)" and ne: "ys \<noteq> zs"
    then obtain c c' where ys: "ys = map ?k (?P c)" and zs: "zs = map ?k (?P c')" by auto
    with ne have "c \<noteq> c'" by auto
    then show "set ys \<inter> set zs = {}"
      unfolding ys zs by auto
  qed
  with e show ?thesis by simp
qed

lemma weekly_theme_stats_key:
  "distinct (map (\<lambda>r. (week_start r, cluster_id r))
     (weekly_theme_stats (fst (compute_weekly_trends conn now n))))"
proof -
  have "map (\<lambda>r. (week_start r, cluster_id r))
          (weekly_theme_stats (fst (compute_weekly_trends conn now n))) =
        map (\<lambda>r. (wd_week_start r, wd_cluster_id r))
          (map fst (with_prior (weekly_docs conn now n)))"
    unfolding stats_rows by (simp add: case_prod_unfold)
  then show ?thesis
    using with_prior_keys_distinct [OF weekly_docs_distinct [of conn now n]] by simp
qed

lemma joined_rows_cluster:
  "(w, c, l, sc, sg) \<in> set (joined_rows conn now n) \<Longrightarrow> 0 \<le> c"
  by (auto simp: joined_rows_def split: if_splits option.splits)

lemma weekly_docs_row:
  assumes "v \<in> set (weekly_docs conn now n)"
  shows "clusters conn (wd_cluster_id v) = Some (wd_cluster_label v)
         \<and> 0 \<le> wd_cluster_id v \<and> 1 \<le> wd_doc_count v"
proof -
  let ?rows = "joined_rows conn now n"
  let ?keys = "remdups (map (\<lambda>(w, c, l, sc, sg). (w, c, l)) ?rows)"
  define mk where "mk = (\<lambda>(w, c, l).
           let grp = filter (\<lambda>(w', c', l', sc, sg). (w', c', l') = (w, c, l)) ?rows
           in \<lparr>wd_week_start = w, wd_cluster_id = c, wd_cluster_label = l,
               wd_doc_count = int (length grp),
               wd_signal_sum = coalesce (sql_sum (map (\<lambda>(w', c', l', sc, sg). sg) grp)) 0,
               wd_avg_score =
                 sql_avg (map (\<lambda>(w', c', l', sc, sg). map_option of_int sc) grp)\<rparr>)"
  have "weekly_docs conn now n = map mk ?keys"
    by (simp add: weekly_docs_def Let_def mk_def)
  with assms have "v \<in> mk ` set ?keys" by (simp only: set_map)
  then obtain key where key: "key \<in> set ?keys" and v: "v = mk key" by blast
  obtain w c l where k: "key = (w, c, l)" by (cases key)
  let ?grp = "filter (\<lambda>(w', c', l', sc, sg). (w', c', l') = (w, c, l)) ?rows"
  from v k have f: "wd_cluster_id v = c" "wd_cluster_label v = l"
    "wd_doc_count v = int (length ?grp)"
    by (simp_all add: mk_def Let_def)
  from key k obtain sc sg where row: "(w, c, l, sc, sg) \<in> set ?rows" by auto
  then have "(w, c, l, sc, sg) \<in> set ?grp" by simp
  then have "0 < length ?grp" by (rule length_pos_if_in_set)
  then have "1 \<le> int (length ?grp)" by linarith
  then have "1 \<le> wd_doc_count v" by (simp only: f(3))
  with joined_rows_label [OF row] joined_rows_cluster [OF row] f show ?thesis by simp
qed

lemma weekly_theme_stats_row:
  assumes "r \<in> set (weekly_theme_stats (fst (compute_weekly_trends conn now n)))"
  shows "clusters conn (cluster_id r) = Some (cluster_label r) \<and> 0 \<le> cluster_id r
         \<and> 1 \<le> doc_count r"
proof -
  from assms obtain v p where vp: "(v, p) \<in> set (with_prior (weekly_docs conn now n))"
    and r: "cluster_id r = wd_cluster_id v" "cluster_label r = wd_cluster_label v"
      "doc_count r = wd_doc_count v"
    unfolding stats_rows by auto
  from vp have "v \<in> fst ` set (with_prior (weekly_docs conn now n))" by force
  then have "v \<in> set (weekly_docs conn now n)" by (simp only: with_prior_fst)
  from weekly_docs_row [OF this] r show ?thesis by simp
qed

text \<open>
  C1. For every row \<open>r\<close> of the table that \<open>compute_weekly_trends\<close> writes: if \<open>q\<close> is
  the row of the same cluster with the latest week before that of \<open>r\<close>
  (\<open>preceding_week\<close>), then \<open>growth_pct\<close> of \<open>r\<close> is
  \<open>ROUND((doc_count r - doc_count q) / doc_count q * 100, 1)\<close>, or NULL where
  \<open>doc_count q\<close> is 0; and \<open>growth_pct\<close> of \<open>r\<close> is NULL exactly when the table has no
  earlier week for the cluster or the preceding week's \<open>doc_count\<close> is 0. Weekly counts
  of 10, 5 and 20 for one cluster give NULL, -50.0 and 300.0.
\<close>

theorem growth_pct_week_over_week:
  assumes r: "r \<in> set (weekly_theme_stats (fst (compute_weekly_trends conn now n)))"
  shows "(\<forall>q. preceding_week (weekly_theme_stats (fst (compute_weekly_trends conn now n))) r q
            \<longrightarrow> growth_pct r =
                 (if doc_count q = 0 then None
                  else Some (round_numeric
                         ((of_int (doc_count r - doc_count q) / of_int (doc_count q)) * 100) 1)))
       \<and> (growth_pct r = None \<longleftrightarrow>
            \<not> (\<exists>q\<in>set (weekly_theme_stats (fst (compute_weekly_trends conn now n))).
                  cluster_id q = cluster_id r \<and> week_start q < week_start r)
            \<or> (\<exists>q. preceding_week (weekly_theme_stats (fst (compute_weekly_trends conn now n))) r q
                  \<and> doc_count q = 0))
       \<and> map (\<lambda>(wd, p). growth_pct_of (wd_doc_count wd) p)
            (with_prior
               [\<lparr>wd_week_start = 4, wd_cluster_id = 1, wd_cluster_label = None,
                 wd_doc_count = 10, wd_signal_sum = 0, wd_avg_score = None\<rparr>,
                \<lparr>wd_week_start = 11, wd_cluster_id = 1, wd_cluster_label = None,
                 wd_doc_count = 5, wd_signal_sum = 0, wd_avg_score = None\<rparr>,
                \<lparr>wd_week_start = 18, wd_cluster_id = 1, wd_cluster_label = None,
                 wd_doc_count = 20, wd_signal_sum = 0, wd_avg_score = None\<rparr>]) =
          [None, Some (- 50), Some 300]"
proof -
  let ?T = "weekly_theme_stats (fst (compute_weekly_trends conn now n))"
  let ?wd = "weekly_docs conn now n"
  note d = weekly_docs_distinct [of conn now n]
  from stats_row_of [OF r] obtain w p where
    wp: "(w, p) \<in> set (with_prior ?wd)"
    and w: "week_start r = wd_week_start w" "cluster_id r = wd_cluster_id w"
      "doc_count r = wd_doc_count w"
    and g: "growth_pct r = growth_pct_of (wd_doc_count w) p"
    by blast
  note prior = with_prior_prior [OF d wp]
  text \<open>a row of the table that precedes r comes from a weekly row that precedes w\<close>
  have down: "\<exists>v\<in>set ?wd. wd_week_start v = week_start t \<and> wd_cluster_id v = cluster_id t
                \<and> wd_doc_count v = doc_count t" if "t \<in> set ?T" for t
  proof -
    from stats_row_of [OF that] obtain v pv where
      "(v, pv) \<in> set (with_prior ?wd)" "week_start t = wd_week_start v"
      "cluster_id t = wd_cluster_id v" "doc_count t = wd_doc_count v"
      by blast
    moreover from this(1) have "v \<in> set ?wd"
      using with_prior_prior [OF d] by blast
    ultimately show ?thesis by auto
  qed
  have earlier_iff:
    "(\<exists>q\<in>set ?T. cluster_id q = cluster_id r \<and> week_start q < week_start r) \<longleftrightarrow>
     (\<exists>v\<in>set ?wd. wd_cluster_id v = wd_cluster_id w \<and> wd_week_start v < wd_week_start w)"
    (is "?L \<longleftrightarrow> ?R")
  proof
    assume ?L
    then obtain q where "q \<in> set ?T" "cluster_id q = cluster_id r"
      "week_start q < week_start r" by blast
    with down [of q] w show ?R by auto
  next
    assume ?R
    then obtain v where v: "v \<in> set ?wd" "wd_cluster_id v = wd_cluster_id w"
      "wd_week_start v < wd_week_start w" by blast
    from stats_row_for [OF v(1)] v(2,3) w show ?L by auto
  qed
  text \<open>the weekly row that LAG reads, when there is one\<close>
  have lag: "\<exists>v\<in>set ?wd. wd_cluster_id v = wd_cluster_id w
               \<and> wd_week_start v < wd_week_start w
               \<and> (\<forall>v'\<in>set ?wd. wd_cluster_id v' = wd_cluster_id w
                      \<and> wd_week_start v' < wd_week_start w
                      \<longrightarrow> wd_week_start v' \<le> wd_week_start v)
               \<and> p = Some (wd_doc_count v)"
    if "\<exists>v\<in>set ?wd. wd_cluster_id v = wd_cluster_id w \<and> wd_week_start v < wd_week_start w"
    using prior that by (simp split: if_splits)
  have first: "growth_pct r =
                 (if doc_count q = 0 then None
                  else Some (round_numeric
                         ((of_int (doc_count r - doc_count q) / of_int (doc_count q)) * 100) 1))"
    if pq: "preceding_week ?T r q" for q
  proof -
    from pq have q: "q \<in> set ?T" "cluster_id q = cluster_id r" "week_start q < week_start r"
      and qmax: "\<forall>q'\<in>set ?T. cluster_id q' = cluster_id r \<and> week_start q' < week_start r
         \<longrightarrow> week_start q' \<le> week_start q"
      by (simp_all add: preceding_week_def)
    from down [OF q(1)] obtain vq where vq: "vq \<in> set ?wd" "wd_week_start vq = week_start q"
      "wd_cluster_id vq = cluster_id q" "wd_doc_count vq = doc_count q" by blast
    have "\<exists>v\<in>set ?wd. wd_cluster_id v = wd_cluster_id w \<and> wd_week_start v < wd_week_start w"
      using vq q w by auto
    from lag [OF this] obtain v where v: "v \<in> set ?wd" "wd_cluster_id v = wd_cluster_id w"
      "wd_week_start v < wd_week_start w"
      "\<forall>v'\<in>set ?wd. wd_cluster_id v' = wd_cluster_id w \<and> wd_week_start v' < wd_week_start w
          \<longrightarrow> wd_week_start v' \<le> wd_week_start v"
      "p = Some (wd_doc_count v)" by blast
    from stats_row_for [OF v(1)] obtain tv where tv: "tv \<in> set ?T"
      "week_start tv = wd_week_start v" "cluster_id tv = wd_cluster_id v" by blast
    have "wd_week_start v \<le> wd_week_start vq"
      using qmax tv v(2,3) w vq(2) by auto
    moreover have "wd_week_start vq \<le> wd_week_start v"
      using v(4) vq q w by auto
    ultimately have "(wd_week_start v, wd_cluster_id v) = (wd_week_start vq, wd_cluster_id vq)"
      using v(2) vq(3) q(2) w(2) by simp
    with d v(1) vq(1) have "v = vq"
      by (auto simp: distinct_map dest: inj_onD)
    with v(5) vq(4) have "p = Some (doc_count q)" by simp
    with g w(3) show ?thesis
      by (simp add: growth_pct_of_def)
  qed
  have second: "growth_pct r = None \<longleftrightarrow>
            \<not> (\<exists>q\<in>set ?T. cluster_id q = cluster_id r \<and> week_start q < week_start r)
            \<or> (\<exists>q. preceding_week ?T r q \<and> doc_count q = 0)"
    (is "?N \<longleftrightarrow> ?A \<or> ?B")
  proof
    assume none: ?N
    show "?A \<or> ?B"
    proof (cases ?A)
      case True
      then show ?thesis by simp
    next
      case False
      then have "\<exists>v\<in>set ?wd. wd_cluster_id v = wd_cluster_id w
                   \<and> wd_week_start v < wd_week_start w"
        using earlier_iff by simp
      from lag [OF this] obtain v where v: "v \<in> set ?wd" "wd_cluster_id v = wd_cluster_id w"
        "wd_week_start v < wd_week_start w"
        "\<forall>v'\<in>set ?wd. wd_cluster_id v' = wd_cluster_id w \<and> wd_week_start v' < wd_week_start w
            \<longrightarrow> wd_week_start v' \<le> wd_week_start v"
        "p = Some (wd_doc_count v)" by blast
      from stats_row_for [OF v(1)] obtain tv where tv: "tv \<in> set ?T"
        "week_start tv = wd_week_start v" "cluster_id tv = wd_cluster_id v"
        "doc_count tv = wd_doc_count v" by blast
      have "week_start q' \<le> week_start tv"
        if "q' \<in> set ?T" "cluster_id q' = cluster_id r" "week_start q' < week_start r" for q'
      proof -
        from down [OF that(1)] obtain v' where "v' \<in> set ?wd"
          "wd_week_start v' = week_start q'" "wd_cluster_id v' = cluster_id q'" by blast
        with v(4) that(2,3) w tv(2) show ?thesis by auto
      qed
      then have "preceding_week ?T r tv"
        using tv v(2,3) w by (auto simp: preceding_week_def)
      moreover have "doc_count tv = 0"
        using none g v(5) tv(4) by (simp add: growth_pct_of_None)
      ultimately show ?thesis by blast
    qed
  next
    assume "?A \<or> ?B"
    then show ?N
    proof
      assume ?A
      then have "\<not> (\<exists>v\<in>set ?wd. wd_cluster_id v = wd_cluster_id w
                   \<and> wd_week_start v < wd_week_start w)"
        using earlier_iff by simp
      with prior have "p = None" by (simp split: if_splits)
      with g show ?N by (simp add: growth_pct_of_def)
    next
      assume ?B
      then obtain q where "preceding_week ?T r q" "doc_count q = 0" by blast
      with first [of q] show ?N by simp
    qed
  qed
  from first second growth_example show ?thesis by blast
qed

theorem growth_pct_week_over_week_witness:
  "demo_stats ! 1 \<in> set (weekly_theme_stats
       (fst (compute_weekly_trends demo_db (12 * usec_per_day) 12)))
   \<and> preceding_week
       (weekly_theme_stats (fst (compute_weekly_trends demo_db (12 * usec_per_day) 12)))
       (demo_stats ! 1) (demo_stats ! 0)
   \<and> growth_pct (demo_stats ! 1) =
       Some (round_numeric ((of_int (1 - 2) / of_int 2) * 100) 1)
   \<and> growth_pct (demo_stats ! 0) = None"
proof -
  have T: "weekly_theme_stats (fst (compute_weekly_trends demo_db (12 * usec_per_day) 12))
           = demo_stats"
    by (simp add: demo_compute)
  have 0: "demo_stats ! 0 \<in> set demo_stats" and 1: "demo_stats ! 1 \<in> set demo_stats"
    by (simp_all add: demo_stats_def)
  have p: "preceding_week demo_stats (demo_stats ! 1) (demo_stats ! 0)"
    by (simp add: preceding_week_def demo_stats_def)
  have n: "\<not> (\<exists>q\<in>set demo_stats. cluster_id q = cluster_id (demo_stats ! 0)
               \<and> week_start q < week_start (demo_stats ! 0))"
    by (simp add: demo_stats_def)
  have d: "doc_count (demo_stats ! 0) = 2" "doc_count (demo_stats ! 1) = 1"
    by (simp_all add: demo_stats_def)
  from growth_pct_week_over_week [of "demo_stats ! 1" demo_db "12 * usec_per_day" 12]
    growth_pct_week_over_week [of "demo_stats ! 0" demo_db "12 * usec_per_day" 12]
    0 1 p n d
  show ?thesis unfolding T by auto
qed

section \<open>Properties of TrendQueryService\<close>

text \<open>
  The query itself: every cluster it returns has \<open>total_docs\<close> of at least
  \<open>min_docs\<close>, there are at most \<open>limit\<close> of them, they come in descending order of
  \<open>trend_score\<close>, the average growth is taken over the weeks whose growth is not NULL,
  and it is NULL exactly when every week's growth is.
\<close>

lemma recent_min_docs:
  "g \<in> set (recent conn now weeks min_docs) \<Longrightarrow> min_docs \<le> r_total_docs g"
  by (simp add: recent_def Let_def)

lemma recent_avg_growth:
  assumes "g \<in> set (recent conn now weeks min_docs)"
  shows "r_avg_growth g =
           sql_avg (map growth_pct
             (filter (\<lambda>r. (cluster_id r, cluster_label r) = (r_cluster_id g, r_cluster_label g))
                (filter (\<lambda>r. now - weeks * 7 * usec_per_day \<le> week_start r * usec_per_day)
                   (weekly_theme_stats conn))))
         \<and> r_total_docs g =
           sum_list (map doc_count
             (filter (\<lambda>r. (cluster_id r, cluster_label r) = (r_cluster_id g, r_cluster_label g))
                (filter (\<lambda>r. now - weeks * 7 * usec_per_day \<le> week_start r * usec_per_day)
                   (weekly_theme_stats conn))))"
  using assms by (auto simp: recent_def Let_def)

lemma sql_avg_None: "sql_avg xs = None \<longleftrightarrow> (\<forall>x\<in>set xs. x = None)"
proof -
  have "non_null xs = [] \<longleftrightarrow> (\<forall>x\<in>set xs. x = None)"
    by (induction xs) (auto simp: non_null_def split: option.splits)
  then show ?thesis by (simp add: sql_avg_def)
qed

lemma get_trending_themes_limit:
  "get_trending_themes conn now weeks min_docs limit = Inr ts \<Longrightarrow>
   length ts \<le> nat limit \<and> (\<forall>t\<in>set ts. min_docs \<le> th_total_docs t)"
proof -
  assume a: "get_trending_themes conn now weeks min_docs limit = Inr ts"
  let ?rows = "take (nat limit)
                 (sort_key (\<lambda>g. - trend_score g) (recent conn now weeks min_docs))"
  from a have l: "0 \<le> limit" and ts: "map th_total_docs ts = map r_total_docs ?rows"
    by (auto simp: get_trending_themes_def Let_def split: if_splits)
  from ts have "length ts = length ?rows" by (metis length_map)
  then have 1: "length ts \<le> nat limit" by simp
  have "\<forall>g\<in>set ?rows. min_docs \<le> r_total_docs g"
    using recent_min_docs by (metis in_set_takeD set_sort)
  then have "\<forall>d\<in>set (map r_total_docs ?rows). min_docs \<le> d" by auto
  with ts have "\<forall>d\<in>set (map th_total_docs ts). min_docs \<le> d" by simp
  then have 2: "\<forall>t\<in>set ts. min_docs \<le> th_total_docs t" by auto
  from 1 2 show ?thesis by simp
qed

lemma ranked_descending:
  "sorted (map (\<lambda>g. - trend_score g)
     (take n (sort_key (\<lambda>g. - trend_score g) (recent conn now weeks min_docs))))"
  by (simp add: take_map [symmetric] sorted_wrt_take)

lemma flat_joined:
  "joined_rows flat_db (12 * usec_per_day) 12 =
     [(4, 1, Some ''isa'', Some 4, None), (11, 1, Some ''isa'', Some 2, None)]"
  by (simp add: joined_rows_def flat_db_def demo_db_def demo_post_def usec_per_day_def
      date_trunc_week_def)

lemma flat_weekly_docs:
  "weekly_docs flat_db (12 * usec_per_day) 12 =
     [\<lparr>wd_week_start = 4, wd_cluster_id = 1, wd_cluster_label = Some ''isa'',
       wd_doc_count = 1, wd_signal_sum = 0, wd_avg_score = Some 4\<rparr>,
      \<lparr>wd_week_start = 11, wd_cluster_id = 1, wd_cluster_label = Some ''isa'',
       wd_doc_count = 1, wd_signal_sum = 0, wd_avg_score = Some 2\<rparr>]"
  unfolding weekly_docs_def flat_joined
  by (simp add: sql_sum_def sql_avg_def non_null_simps coalesce_def Let_def)

lemma flat_compute:
  "fst (compute_weekly_trends flat_db (12 * usec_per_day) 12) =
     flat_db\<lparr>weekly_theme_stats := flat_stats\<rparr>"
  unfolding compute_weekly_trends_def Let_def weekly_docs_stats flat_weekly_docs
  by (simp add: with_prior_def growth_pct_of_def round_numeric_def flat_stats_def)

lemma flat_recent:
  "recent (flat_db\<lparr>weekly_theme_stats := flat_stats\<rparr>) (12 * usec_per_day) 4 2 =
     [\<lparr>r_cluster_id = 1, r_cluster_label = Some ''isa'', r_total_docs = 2,
       r_avg_signal = Some 0, r_avg_growth = Some 0\<rparr>]"
  by (simp add: recent_def flat_stats_def usec_per_day_def sql_avg_def non_null_simps Let_def)


text \<open>
  C6. \<open>get_trending_themes\<close> is meant to report \<open>avg_growth\<close> as null only for a
  cluster without any week that has a growth value. For the cluster of \<open>flat_db\<close> the
  second week has the growth 0.0, the query computes the average 0.0, and the
  dictionary reports \<open>None\<close>: in \<open>round(r.avg_growth or 0, 1) if r.avg_growth else
  None\<close> a float that is zero counts as false.
\<close>

theorem trending_zero_growth_reported_null:
  "map growth_pct
     (weekly_theme_stats (fst (compute_weekly_trends flat_db (12 * usec_per_day) 12))) =
     [None, Some 0]
   \<and> map r_avg_growth
       (recent (fst (compute_weekly_trends flat_db (12 * usec_per_day) 12))
          (12 * usec_per_day) 4 2) = [Some 0]
   \<and> get_trending_themes (fst (compute_weekly_trends flat_db (12 * usec_per_day) 12))
       (12 * usec_per_day) 4 2 10 =
     Inr [\<lparr>th_cluster_id = 1, th_label = Some ''isa'', th_total_docs = 2,
           th_avg_signal = 0, th_avg_growth = None, th_trend_score = 1\<rparr>]"
  unfolding flat_compute get_trending_themes_def Let_def flat_recent
  by (simp add: flat_stats_def trend_score_def coalesce_def py_round_def round_half_even_def)

end
